theory Spec2Isabelle
  imports Main
begin

section \<open>The UCD fetcher (scripts/download-unicode-data.py)\<close>

text \<open>
  The script is 45 lines of Python: it computes an output directory from its own
  location, tests for a sentinel file, and otherwise creates the directory, fetches one
  URL, and unpacks the body as a ZIP archive. Everything it does is a call into the
  Python standard library, so the embedding has two layers:
  \<^item> the library calls the script makes (\<open>os.path.join\<close>, \<open>os.path.dirname\<close>,
    \<open>os.path.isfile\<close>, \<open>os.makedirs\<close>, \<open>urllib.request.urlopen\<close>,
    \<open>zipfile.ZipFile\<close>, \<open>ZipFile.extractall\<close>, \<open>print\<close>), each modelled after
    its CPython source on a POSIX system;
  \<^item> the script's own definitions (\<open>root_dir\<close>, \<open>process_ucd\<close>, \<open>main\<close> and the
    three module constants), translated line by line.
\<close>

subsection \<open>Path strings: \<open>posixpath.join\<close> and \<open>posixpath.dirname\<close>\<close>

definition sep :: char where
  "sep = CHR ''/''"

text \<open>
  \<open>join(a, b)\<close> with one extra component, as the script calls it:
  \<^verbatim>\<open>
  if b.startswith(sep):                  path = b
  elif not path or path.endswith(sep):   path += b
  else:                                  path += sep + b
  \<close>
\<close>

definition startswith_sep :: "string \<Rightarrow> bool" where
  "startswith_sep p = (case p of [] \<Rightarrow> False | c # _ \<Rightarrow> c = sep)"

definition endswith_sep :: "string \<Rightarrow> bool" where
  "endswith_sep p = (p \<noteq> [] \<and> last p = sep)"

definition join :: "string \<Rightarrow> string \<Rightarrow> string" where
  "join a b =
     (if startswith_sep b then b
      else if a = [] \<or> endswith_sep a then a @ b
      else a @ [sep] @ b)"

text \<open>
  \<open>dirname(p)\<close>:
  \<^verbatim>\<open>
  i = p.rfind(sep) + 1
  head = p[:i]
  if head and head != sep*len(head):
      head = head.rstrip(sep)
  return head
  \<close>
  \<open>head_of p\<close> is \<open>p[:i]\<close> and \<open>basename p\<close> is \<open>p[i:]\<close>; \<open>rstrip_sep\<close> is
  \<open>rstrip(sep)\<close>.
\<close>

definition head_of :: "string \<Rightarrow> string" where
  "head_of p = rev (dropWhile (\<lambda>c. c \<noteq> sep) (rev p))"

definition basename :: "string \<Rightarrow> string" where
  "basename p = rev (takeWhile (\<lambda>c. c \<noteq> sep) (rev p))"

definition rstrip_sep :: "string \<Rightarrow> string" where
  "rstrip_sep p = rev (dropWhile (\<lambda>c. c = sep) (rev p))"

definition dirname :: "string \<Rightarrow> string" where
  "dirname p =
     (let head = head_of p
      in if head \<noteq> [] \<and> head \<noteq> replicate (length head) sep then rstrip_sep head
         else head)"

subsection \<open>Locations: what a path string names\<close>

text \<open>
  The kernel resolves a path string component by component, from the root when the
  string starts with a slash and from the working directory otherwise: an empty
  component and \<open>.\<close> stay, \<open>..\<close> goes to the parent (the root is its own parent), a
  name goes down. A location is the list of names from the root. Symbolic links are not
  modelled, and a directory that a path leaves through \<open>..\<close> is taken to exist (for
  the script it is the directory the interpreter loaded the script from).
\<close>

type_synonym path = "string list"

fun split_sep :: "string \<Rightarrow> string list" where
  "split_sep [] = [[]]"
| "split_sep (c # cs) =
     (if c = sep then [] # split_sep cs
      else (c # hd (split_sep cs)) # tl (split_sep cs))"

definition walk :: "path \<Rightarrow> string \<Rightarrow> path" where
  "walk loc c =
     (if c = [] \<or> c = ''.'' then loc
      else if c = ''..'' then butlast loc
      else loc @ [c])"

definition locate :: "path \<Rightarrow> string \<Rightarrow> path" where
  "locate cwd p = foldl walk (if startswith_sep p then [] else cwd) (split_sep p)"

subsection \<open>The script's constants and \<open>root_dir\<close>\<close>

definition UNICODE_SITE :: string where
  "UNICODE_SITE = ''https://www.unicode.org''"

definition UCD_ZIP_FILE :: string where
  "UCD_ZIP_FILE = ''Public/UCD/latest/ucd/UCD.zip''"

definition OUTPUT_DIRECTORY_UCD :: string where
  "OUTPUT_DIRECTORY_UCD = ''data/ucd''"

text \<open>
  Line 15, \<open>root_dir = os.path.join(os.path.dirname(__file__), '..')\<close>. The argument
  is the value of \<open>__file__\<close>, the path of the script as the interpreter has it.
\<close>

definition root_dir :: "string \<Rightarrow> string" where
  "root_dir file = join (dirname file) ''..''"

text \<open>Line 20, \<open>data_dir = os.path.join(root_dir, OUTPUT_DIRECTORY_UCD)\<close>.\<close>

definition data_dir :: "string \<Rightarrow> string" where
  "data_dir file = join (root_dir file) OUTPUT_DIRECTORY_UCD"

subsection \<open>The filesystem\<close>

text \<open>
  A filesystem maps a location to what is there: a regular file with its bytes, or a
  directory. The root is always a directory. The single system calls (\<open>mkdir\<close>, opening
  a file for writing) fail without changing anything, with the error number Linux gives.
  Permissions, links, devices and a full disk are not modelled: a call fails only for what
  is or is not at a location.
\<close>

type_synonym bytes = "char list"

datatype node = File bytes | Dir

type_synonym filesystem = "path \<Rightarrow> node option"

datatype errno = EEXIST | ENOENT | ENOTDIR | EISDIR

definition node_at :: "filesystem \<Rightarrow> path \<Rightarrow> node option" where
  "node_at fs loc = (if loc = [] then Some Dir else fs loc)"

definition fs_exists :: "filesystem \<Rightarrow> path \<Rightarrow> bool" where
  "fs_exists fs loc = (node_at fs loc \<noteq> None)"

definition fs_isdir :: "filesystem \<Rightarrow> path \<Rightarrow> bool" where
  "fs_isdir fs loc = (node_at fs loc = Some Dir)"

text \<open>\<open>os.path.isfile\<close>: \<open>stat\<close> succeeds and the mode is that of a regular file.\<close>

definition fs_isfile :: "filesystem \<Rightarrow> path \<Rightarrow> bool" where
  "fs_isfile fs loc = (case node_at fs loc of Some (File _) \<Rightarrow> True | _ \<Rightarrow> False)"

definition parent_errno :: "filesystem \<Rightarrow> path \<Rightarrow> errno option" where
  "parent_errno fs loc =
     (case node_at fs (butlast loc) of
        None \<Rightarrow> Some ENOENT
      | Some (File _) \<Rightarrow> Some ENOTDIR
      | Some Dir \<Rightarrow> None)"

definition mkdir :: "filesystem \<Rightarrow> path \<Rightarrow> errno + filesystem" where
  "mkdir fs loc =
     (if loc = [] then Inl EEXIST
      else case parent_errno fs loc of
             Some e \<Rightarrow> Inl e
           | None \<Rightarrow> if fs loc \<noteq> None then Inl EEXIST else Inr (fs(loc \<mapsto> Dir)))"

text \<open>\<open>open(path, "wb")\<close> followed by writing \<open>data\<close> and closing.\<close>

definition write_file :: "filesystem \<Rightarrow> path \<Rightarrow> bytes \<Rightarrow> errno + filesystem" where
  "write_file fs loc data =
     (if loc = [] then Inl EISDIR
      else case parent_errno fs loc of
             Some e \<Rightarrow> Inl e
           | None \<Rightarrow> if fs loc = Some Dir then Inl EISDIR else Inr (fs(loc \<mapsto> File data)))"

text \<open>
  \<open>os.makedirs(name, exist_ok)\<close>:
  \<^verbatim>\<open>
  head, tail = path.split(name)
  if head and tail and not path.exists(head):
      try:
          makedirs(head, exist_ok=exist_ok)
      except FileExistsError:
          pass
  try:
      mkdir(name, mode)
  except OSError:
      if not exist_ok or not path.isdir(name):
          raise
  \<close>
  On locations \<open>head\<close> is the parent. \<open>mkdir_leaf\<close> is the second \<open>try\<close>. The function
  returns the filesystem it leaves behind also when it raises.
\<close>

definition mkdir_leaf :: "bool \<Rightarrow> filesystem \<Rightarrow> path \<Rightarrow> errno option \<times> filesystem" where
  "mkdir_leaf exist_ok fs name =
     (case mkdir fs name of
        Inr fs' \<Rightarrow> (None, fs')
      | Inl e \<Rightarrow> if \<not> exist_ok \<or> \<not> fs_isdir fs name then (Some e, fs) else (None, fs))"

function makedirs :: "bool \<Rightarrow> filesystem \<Rightarrow> path \<Rightarrow> errno option \<times> filesystem" where
  "makedirs exist_ok fs name =
     (if name \<noteq> [] \<and> \<not> fs_exists fs (butlast name)
      then (case makedirs exist_ok fs (butlast name) of
              (None, fs1) \<Rightarrow> mkdir_leaf exist_ok fs1 name
            | (Some e, fs1) \<Rightarrow>
                if e = EEXIST then mkdir_leaf exist_ok fs1 name else (Some e, fs1))
      else mkdir_leaf exist_ok fs name)"
  by pat_completeness auto
termination
  by (relation "measure (\<lambda>(ok, fs, name). length name)") auto

declare makedirs.simps [simp del]

subsection \<open>Errors, the network and ZIP archives\<close>

datatype error = OSError errno | URLError | HTTPError int | BadZipFile | ValueError

text \<open>
  What the network does with a GET: nothing usable (no connection, a timeout, a name
  that does not resolve) or the reply of the server, its status code and body. The reply
  is the one to the last request of the exchange, after \<open>urllib\<close> has followed the
  redirects it accepts. The body arrives whole.
\<close>

datatype reply = NoReply | Reply int bytes

record response =
  status :: int
  body :: bytes

text \<open>
  \<open>urllib.request.urlopen\<close> with the default opener. Its \<open>HTTPErrorProcessor\<close> passes
  a reply on only when \<open>200 <= code < 300\<close>; any other code goes to the error handlers,
  and \<open>HTTPDefaultErrorHandler\<close> raises \<open>HTTPError\<close>. A transport fault is raised as
  \<open>URLError\<close>.
\<close>

definition urlopen :: "(string \<Rightarrow> reply) \<Rightarrow> string \<Rightarrow> error + response" where
  "urlopen net url =
     (case net url of
        NoReply \<Rightarrow> Inl URLError
      | Reply code b \<Rightarrow>
          if 200 \<le> code \<and> code < 300 then Inr \<lparr>status = code, body = b\<rparr>
          else Inl (HTTPError code))"

text \<open>
  A member of an archive: its name and its uncompressed bytes. Decoding the bytes of an
  archive is left to a decoder, \<open>None\<close> where \<open>zipfile.ZipFile\<close> raises
  \<open>BadZipFile\<close>; the members come in the order \<open>extractall\<close> visits them, and
  every member the decoder gives can be decompressed.
\<close>

record member =
  filename :: string
  content :: bytes

definition ZipFile :: "(bytes \<Rightarrow> member list option) \<Rightarrow> bytes \<Rightarrow> error + member list" where
  "ZipFile decode data = (case decode data of None \<Rightarrow> Inl BadZipFile | Some ms \<Rightarrow> Inr ms)"

definition is_dir :: "member \<Rightarrow> bool" where
  "is_dir m = endswith_sep (filename m)"

text \<open>
  \<open>ZipFile._extract_member\<close> cleans the name of a member:
  \<^verbatim>\<open>
  invalid_path_parts = ('', os.path.curdir, os.path.pardir)
  arcname = os.path.sep.join(x for x in arcname.split(os.path.sep)
                             if x not in invalid_path_parts)
  \<close>
\<close>

definition arcname_parts :: "string \<Rightarrow> path" where
  "arcname_parts name = filter (\<lambda>x. x \<noteq> [] \<and> x \<noteq> ''.'' \<and> x \<noteq> ''..'') (split_sep name)"

text \<open>
  The rest of \<open>_extract_member\<close>, with \<open>base\<close> the location of the directory
  extracted to:
  \<^verbatim>\<open>
  if not arcname and not member.is_dir():
      raise ValueError("Empty filename.")
  targetpath = os.path.normpath(os.path.join(targetpath, arcname))
  upperdirs = os.path.dirname(targetpath)
  if upperdirs and not os.path.exists(upperdirs):
      os.makedirs(upperdirs)
  if member.is_dir():
      if not os.path.isdir(targetpath):
          os.mkdir(targetpath)
      return targetpath
  with self.open(member, pwd=pwd) as source, open(targetpath, "wb") as target:
      shutil.copyfileobj(source, target)
  \<close>
\<close>

definition put_member :: "filesystem \<Rightarrow> path \<Rightarrow> member \<Rightarrow> errno + filesystem" where
  "put_member fs target m =
     (if is_dir m then (if \<not> fs_isdir fs target then mkdir fs target else Inr fs)
      else write_file fs target (content m))"

definition extract_member :: "filesystem \<Rightarrow> path \<Rightarrow> member \<Rightarrow> error option \<times> filesystem" where
  "extract_member fs base m =
     (let parts = arcname_parts (filename m)
      in if parts = [] \<and> \<not> is_dir m then (Some ValueError, fs)
         else
           let target = base @ parts;
               upperdirs = butlast target
           in case (if \<not> fs_exists fs upperdirs then makedirs False fs upperdirs
                    else (None, fs)) of
                (Some e, fs1) \<Rightarrow> (Some (OSError e), fs1)
              | (None, fs1) \<Rightarrow>
                  (case put_member fs1 target m of
                     Inl e \<Rightarrow> (Some (OSError e), fs1)
                   | Inr fs2 \<Rightarrow> (None, fs2)))"

text \<open>\<open>extractall\<close>: \<open>for zipinfo in members: self._extract_member(zipinfo, path, pwd)\<close>.\<close>

fun extractall :: "filesystem \<Rightarrow> path \<Rightarrow> member list \<Rightarrow> error option \<times> filesystem" where
  "extractall fs base [] = (None, fs)"
| "extractall fs base (m # ms) =
     (case extract_member fs base m of
        (Some e, fs') \<Rightarrow> (Some e, fs')
      | (None, fs') \<Rightarrow> extractall fs' base ms)"

subsection \<open>Formatting with \<open>%d\<close>\<close>

fun str_nat :: "nat \<Rightarrow> string" where
  "str_nat n =
     (if n < 10 then [''0123456789'' ! n]
      else str_nat (n div 10) @ [''0123456789'' ! (n mod 10)])"

declare str_nat.simps [simp del]

definition fmt_d :: "int \<Rightarrow> string" where
  "fmt_d i = (if i < 0 then CHR ''-'' # str_nat (nat (- i)) else str_nat (nat i))"

subsection \<open>The world the script runs in\<close>

text \<open>
  The script acts on the filesystem, the network and the console. The world holds the
  filesystem and the trace of the calls with an effect that the script has made, in
  order (a line printed is a call of \<open>print\<close>). The environment holds what the script
  is given: the value of \<open>__file__\<close>, the working directory, the network and the ZIP
  decoder.
\<close>

datatype event =
    Print string
  | MakeDirs path
  | UrlOpen string
  | Read nat
  | ZipOpen bytes
  | ExtractAll path

record world =
  disk :: filesystem
  trace :: "event list"

record env =
  script_file :: string
  work_dir :: path
  network :: "string \<Rightarrow> reply"
  decoder :: "bytes \<Rightarrow> member list option"

datatype outcome = Returned | Raised error

definition emit :: "event \<Rightarrow> world \<Rightarrow> world" where
  "emit e w = w\<lparr>trace := trace w @ [e]\<rparr>"

definition console :: "world \<Rightarrow> string list" where
  "console w = concat (map (\<lambda>e. case e of Print s \<Rightarrow> [s] | _ \<Rightarrow> []) (trace w))"

definition requests :: "world \<Rightarrow> string list" where
  "requests w = concat (map (\<lambda>e. case e of UrlOpen u \<Rightarrow> [u] | _ \<Rightarrow> []) (trace w))"

subsection \<open>\<open>process_ucd\<close> and \<open>main\<close>\<close>

definition sentinel :: "string \<Rightarrow> string" where
  "sentinel file = join (data_dir file) ''Index.txt''"

definition ucd_url :: string where
  "ucd_url = UNICODE_SITE @ ''/'' @ UCD_ZIP_FILE"

definition skip_message :: string where
  "skip_message =
     ''=> UCD data seems to exist already, skipping...'' @ [CHR 0x0A] @
     ''   (to download again delete '' @ [CHR 0x60] @ OUTPUT_DIRECTORY_UCD @ [CHR 0x60] @
     '' contents)''"

definition downloading_message :: string where
  "downloading_message = ''=> Downloading '' @ ucd_url @ ''...''"

definition failed_message :: "int \<Rightarrow> string" where
  "failed_message st = ''   ...download failed with status '' @ fmt_d st"

definition downloaded_message :: "bytes \<Rightarrow> string" where
  "downloaded_message data =
     ''=> Downloaded '' @ fmt_d (int (length data)) @ '' bytes, extracting...''"

definition extracted_message :: string where
  "extracted_message =
     ''   ...UCD files extracted to '' @ [CHR 0x60] @ OUTPUT_DIRECTORY_UCD @ [CHR 0x60]"

text \<open>
  Lines 34 to 38, the body of the \<open>with\<close> once the status is 200: \<open>response.read()\<close>,
  the \<open>print\<close>, \<open>zipfile.ZipFile(io.BytesIO(data))\<close>, \<open>zip.extractall(data_dir)\<close> and
  the last \<open>print\<close>. Leaving a \<open>with\<close> closes the response or the archive and lets an
  exception through.
\<close>

definition unpack :: "env \<Rightarrow> response \<Rightarrow> world \<Rightarrow> outcome \<times> world" where
  "unpack env resp w4 =
     (let data = body resp;
          w5 = emit (Read (length data)) w4;
          w6 = emit (Print (downloaded_message data)) w5;
          w7 = emit (ZipOpen data) w6
      in case ZipFile (decoder env) data of
           Inl e \<Rightarrow> (Raised e, w7)
         | Inr archive \<Rightarrow>
             let dir = locate (work_dir env) (data_dir (script_file env));
                 w8 = emit (ExtractAll dir) w7
             in case extractall (disk w8) dir archive of
                  (Some e, fs') \<Rightarrow> (Raised e, w8\<lparr>disk := fs'\<rparr>)
                | (None, fs') \<Rightarrow>
                    (Returned, emit (Print extracted_message) (w8\<lparr>disk := fs'\<rparr>)))"

text \<open>
  Lines 27 to 38, what \<open>process_ucd\<close> does when the sentinel is not there:
  \<open>os.makedirs(data_dir, exist_ok=True)\<close>, the \<open>print\<close>, \<open>request.urlopen(ucd_url)\<close>
  and the test of the status.
\<close>

definition download :: "env \<Rightarrow> world \<Rightarrow> outcome \<times> world" where
  "download env w1 =
     (let dir = locate (work_dir env) (data_dir (script_file env));
          w2 = emit (MakeDirs dir) w1
      in case makedirs True (disk w2) dir of
           (Some e, fs') \<Rightarrow> (Raised (OSError e), w2\<lparr>disk := fs'\<rparr>)
         | (None, fs') \<Rightarrow>
             let w3 = emit (Print downloading_message) (w2\<lparr>disk := fs'\<rparr>);
                 w4 = emit (UrlOpen ucd_url) w3
             in case urlopen (network env) ucd_url of
                  Inl e \<Rightarrow> (Raised e, w4)
                | Inr resp \<Rightarrow>
                    if status resp \<noteq> 200
                    then (Returned, emit (Print (failed_message (status resp))) w4)
                    else unpack env resp w4)"

text \<open>Lines 18 to 25: \<open>print()\<close>, the sentinel test and the skip.\<close>

definition process_ucd :: "env \<Rightarrow> world \<Rightarrow> outcome \<times> world" where
  "process_ucd env w0 =
     (let w1 = emit (Print []) w0
      in if fs_isfile (disk w1) (locate (work_dir env) (sentinel (script_file env)))
         then (Returned, emit (Print skip_message) w1)
         else download env w1)"

definition main :: "env \<Rightarrow> world \<Rightarrow> outcome \<times> world" where
  "main env w = process_ucd env w"

subsection \<open>Notions the statements use\<close>

text \<open>
  The location of the output directory and of the sentinel file \<open>Index.txt\<close> directly
  inside it, for the script path and working directory of an environment.
\<close>

definition output_dir :: "env \<Rightarrow> path" where
  "output_dir env = locate (work_dir env) (data_dir (script_file env))"

definition sentinel_file :: "env \<Rightarrow> path" where
  "sentinel_file env = output_dir env @ [''Index.txt'']"

text \<open>Where \<open>_extract_member\<close> puts a member: the directory, then the cleaned name.\<close>

definition target :: "path \<Rightarrow> member \<Rightarrow> path" where
  "target base m = base @ arcname_parts (filename m)"

text \<open>
  \<open>writes W fs fs'\<close>: from \<open>fs\<close> to \<open>fs'\<close> a location keeps what it holds, or was
  empty and now is a directory, or was not a directory and now is a regular file with
  bytes that \<open>W\<close> lists for it.
\<close>

definition writes :: "(path \<times> bytes) set \<Rightarrow> filesystem \<Rightarrow> filesystem \<Rightarrow> bool" where
  "writes W fs fs' \<longleftrightarrow>
     (\<forall>loc. fs' loc = fs loc \<or> (fs loc = None \<and> fs' loc = Some Dir) \<or>
            (fs loc \<noteq> Some Dir \<and> (\<exists>c. (loc, c) \<in> W \<and> fs' loc = Some (File c))))"

definition file_writes :: "path \<Rightarrow> member list \<Rightarrow> (path \<times> bytes) set" where
  "file_writes base ms = {(target base m, content m) | m. m \<in> set ms \<and> \<not> is_dir m}"

text \<open>A filesystem is a tree: what holds a file or a directory is a directory.\<close>

definition tree :: "filesystem \<Rightarrow> bool" where
  "tree fs \<longleftrightarrow> (\<forall>loc. fs loc \<noteq> None \<longrightarrow> fs_isdir fs (butlast loc))"



subsection \<open>A checkout to run the script in\<close>

text \<open>
  The repository is checked out at \<open>/repo\<close>, without a \<open>data\<close> directory yet, and the
  script is started from \<open>/home\<close>. The network answers the UCD URL with a given reply.
  Two archives are known to the decoder: one with \<open>Index.txt\<close> at the top, one without.
\<close>

definition example_script :: string where
  "example_script = ''/repo/scripts/download-unicode-data.py''"

definition example_disk :: filesystem where
  "example_disk =
     [[''repo''] \<mapsto> Dir,
      [''repo'', ''scripts''] \<mapsto> Dir,
      [''repo'', ''scripts'', ''download-unicode-data.py''] \<mapsto> File ''#! /usr/bin/env python3'',
      [''home''] \<mapsto> Dir]"

definition example_archive :: "member list" where
  "example_archive =
     [\<lparr>filename = ''Index.txt'', content = ''index''\<rparr>,
      \<lparr>filename = ''extracted/'', content = []\<rparr>,
      \<lparr>filename = ''extracted/DerivedAge.txt'', content = ''age''\<rparr>]"

definition example_decoder :: "bytes \<Rightarrow> member list option" where
  "example_decoder data =
     (if data = ''PK-ucd'' then Some example_archive
      else if data = ''PK-readme'' then Some [\<lparr>filename = ''ReadMe.txt'', content = ''read''\<rparr>]
      else None)"

definition example_env :: "reply \<Rightarrow> env" where
  "example_env r =
     \<lparr>script_file = example_script,
      work_dir = [''home''],
      network = (\<lambda>url. if url = ucd_url then r else NoReply),
      decoder = example_decoder\<rparr>"

definition example_world :: world where
  "example_world = \<lparr>disk = example_disk, trace = []\<rparr>"

text \<open>
  The disk once \<open>data/ucd\<close> is made, once the first archive is unpacked there, and
  with a directory in the place of the sentinel file.
\<close>

definition made_disk :: filesystem where
  "made_disk = example_disk([''repo'', ''data''] \<mapsto> Dir, [''repo'', ''data'', ''ucd''] \<mapsto> Dir)"

definition fetched_disk :: filesystem where
  "fetched_disk = made_disk
     ([''repo'', ''data'', ''ucd'', ''Index.txt''] \<mapsto> File ''index'',
      [''repo'', ''data'', ''ucd'', ''extracted''] \<mapsto> Dir,
      [''repo'', ''data'', ''ucd'', ''extracted'', ''DerivedAge.txt''] \<mapsto> File ''age'')"

definition blocked_disk :: filesystem where
  "blocked_disk = made_disk([''repo'', ''data'', ''ucd'', ''Index.txt''] \<mapsto> Dir)"

definition fetched_world :: world where
  "fetched_world = \<lparr>disk = fetched_disk, trace = []\<rparr>"

definition blocked_world :: world where
  "blocked_world = \<lparr>disk = blocked_disk, trace = []\<rparr>"




text \<open>The number a string of decimal digits denotes.\<close>

definition decimal :: "string \<Rightarrow> nat" where
  "decimal s = foldl (\<lambda>a c. 10 * a + (of_char c - 48)) 0 s"

section \<open>Properties\<close>

subsection \<open>Paths and locations\<close>

lemma split_sep_ne: "split_sep p \<noteq> []"
  by (cases p) auto

lemma split_sep_append: "split_sep (a @ sep # b) = split_sep a @ split_sep b"
proof (induction a)
  case Nil
  show ?case by simp
next
  case (Cons c a)
  have ne: "split_sep a \<noteq> []" by (rule split_sep_ne)
  show ?case using Cons ne by (cases "split_sep a") auto
qed

lemma split_sep_name: "sep \<notin> set n \<Longrightarrow> split_sep n = [n]"
  by (induction n) auto

text \<open>
  The same step with the rest of the string split once: the form the simplifier
  evaluates in linear time.
\<close>

lemma split_sep_Cons:
  "split_sep (c # cs) =
     (case split_sep cs of
        [] \<Rightarrow> []
      | x # xs \<Rightarrow> if c = sep then [] # x # xs else (c # x) # xs)"
  using split_sep_ne [of cs] by (cases "split_sep cs") auto

declare split_sep.simps(2) [simp del]

lemma split_sep_snoc: "split_sep (a @ [sep]) = split_sep a @ [[]]"
  using split_sep_append [of a "[]"] by simp

lemma split_sep_sep: "split_sep (sep # b) = [] # split_sep b"
  by (simp add: split_sep.simps(2))

lemma startswith_sep_append: "a \<noteq> [] \<Longrightarrow> startswith_sep (a @ b) = startswith_sep a"
  by (cases a) (auto simp: startswith_sep_def)

lemma walk_empty: "walk loc [] = loc"
  by (simp add: walk_def)

lemma locate_snoc_sep: "a \<noteq> [] \<Longrightarrow> locate cwd (a @ [sep]) = locate cwd a"
  by (simp add: locate_def split_sep_snoc startswith_sep_append walk_empty)

lemma locate_Nil: "locate cwd [] = cwd"
  by (simp add: locate_def startswith_sep_def walk_empty)

lemma locate_append_sep:
  "a \<noteq> [] \<Longrightarrow> locate cwd (a @ sep # b) = foldl walk (locate cwd a) (split_sep b)"
  by (simp add: locate_def split_sep_append startswith_sep_append)

lemma locate_join:
  assumes "\<not> startswith_sep b"
  shows "locate cwd (join a b) = foldl walk (locate cwd a) (split_sep b)"
proof (cases "a = []")
  case True
  then show ?thesis using assms by (simp add: join_def locate_Nil) (simp add: locate_def)
next
  case False
  show ?thesis
  proof (cases "endswith_sep a")
    case True
    then obtain a' where a: "a = a' @ [sep]"
      using False by (metis endswith_sep_def append_butlast_last_id)
    show ?thesis
    proof (cases "a' = []")
      case True
      then show ?thesis using assms a
        by (simp add: join_def endswith_sep_def locate_def startswith_sep_def walk_empty split_sep_sep)
    next
      case False
      then show ?thesis using assms a
        by (simp add: join_def endswith_sep_def locate_append_sep locate_snoc_sep walk_empty)
    qed
  next
    case False
    then show ?thesis using assms \<open>a \<noteq> []\<close>
      by (simp add: join_def locate_append_sep)
  qed
qed

lemma locate_replicate_sep:
  "q \<noteq> [] \<Longrightarrow> locate cwd (q @ replicate k sep) = locate cwd q"
proof (induction k)
  case 0
  show ?case by simp
next
  case (Suc k)
  have "q @ replicate (Suc k) sep = (q @ replicate k sep) @ [sep]"
    by (simp add: replicate_append_same)
  then show ?case using Suc locate_snoc_sep [of "q @ replicate k sep" cwd] by simp
qed

lemma rstrip_sep_decomp: "\<exists>k. p = rstrip_sep p @ replicate k sep"
proof -
  have "rev p = takeWhile (\<lambda>c. c = sep) (rev p) @ dropWhile (\<lambda>c. c = sep) (rev p)"
    by simp
  moreover have "takeWhile (\<lambda>c. c = sep) (rev p) = replicate (length (takeWhile (\<lambda>c. c = sep) (rev p))) sep"
    by (metis (mono_tags, lifting) replicate_length_same set_takeWhileD)
  ultimately have "rev p = replicate (length (takeWhile (\<lambda>c. c = sep) (rev p))) sep @ rev (rstrip_sep p)"
    by (simp add: rstrip_sep_def)
  then have "p = rstrip_sep p @ replicate (length (takeWhile (\<lambda>c. c = sep) (rev p))) sep"
    by (metis rev_append rev_replicate rev_rev_ident)
  then show ?thesis ..
qed

lemma locate_dirname: "locate cwd (dirname p) = locate cwd (head_of p)"
proof (cases "head_of p \<noteq> [] \<and> head_of p \<noteq> replicate (length (head_of p)) sep")
  case False
  then show ?thesis by (auto simp: dirname_def Let_def)
next
  case True
  obtain k where k: "head_of p = rstrip_sep (head_of p) @ replicate k sep"
    using rstrip_sep_decomp by blast
  have "rstrip_sep (head_of p) \<noteq> []"
  proof
    assume "rstrip_sep (head_of p) = []"
    with k have "head_of p = replicate k sep" by simp
    with True show False by (metis length_replicate)
  qed
  then have "locate cwd (rstrip_sep (head_of p) @ replicate k sep) = locate cwd (rstrip_sep (head_of p))"
    by (rule locate_replicate_sep)
  with k True show ?thesis by (simp add: dirname_def Let_def)
qed

lemma head_basename: "p = head_of p @ basename p"
  by (metis head_of_def basename_def rev_append rev_rev_ident takeWhile_dropWhile_id)

lemma basename_nosep: "sep \<notin> set (basename p)"
  by (auto simp: basename_def dest: set_takeWhileD)

lemma head_of_cases: "head_of p = [] \<or> (\<exists>h. head_of p = h @ [sep])"
proof (cases "dropWhile (\<lambda>c. c \<noteq> sep) (rev p)")
  case Nil
  then show ?thesis by (simp add: head_of_def)
next
  case (Cons c cs)
  then have "c = sep" using hd_dropWhile [of "\<lambda>c. c \<noteq> sep" "rev p"] by auto
  with Cons show ?thesis by (simp add: head_of_def)
qed

lemma locate_file:
  assumes "basename p \<notin> {[], ''.'', ''..''}"
  shows "locate cwd p = locate cwd (head_of p) @ [basename p]"
proof -
  have w: "walk loc (basename p) = loc @ [basename p]" for loc
    using assms by (simp add: walk_def)
  have s: "split_sep (basename p) = [basename p]"
    by (rule split_sep_name) (rule basename_nosep)
  from head_of_cases [of p] show ?thesis
  proof
    assume h: "head_of p = []"
    then have p: "p = basename p" using head_basename [of p] by simp
    have "\<not> startswith_sep (basename p)"
      using basename_nosep [of p] by (cases "basename p") (auto simp: startswith_sep_def)
    then have "locate cwd (basename p) = cwd @ [basename p]"
      by (simp add: locate_def s w)
    with h p show ?thesis by (simp add: locate_Nil)
  next
    assume "\<exists>h. head_of p = h @ [sep]"
    then obtain h where h: "head_of p = h @ [sep]" ..
    then have p: "p = h @ sep # basename p" using head_basename [of p] by simp
    show ?thesis
    proof (cases "h = []")
      case True
      have "locate cwd (sep # basename p) = [basename p]"
        by (simp add: locate_def startswith_sep_def s w walk_empty split_sep_sep)
      moreover have "locate cwd [sep] = []"
        by (simp add: locate_def startswith_sep_def walk_empty split_sep_sep)
      ultimately show ?thesis using True h p by simp
    next
      case False
      then have "locate cwd (h @ sep # basename p) = locate cwd h @ [basename p]"
        by (simp add: locate_append_sep s w)
      moreover have "locate cwd (h @ [sep]) = locate cwd h"
        using False by (rule locate_snoc_sep)
      ultimately show ?thesis using h p by simp
    qed
  qed
qed

lemma locate_root_dir: "locate cwd (root_dir file) = butlast (locate cwd (head_of file))"
proof -
  have "\<not> startswith_sep ''..''" by (simp add: startswith_sep_def sep_def)
  then have "locate cwd (join (dirname file) ''..'') = foldl walk (locate cwd (dirname file)) (split_sep ''..'')"
    by (rule locate_join)
  then show ?thesis by (simp add: root_dir_def locate_dirname sep_def walk_def split_sep_Cons)
qed

lemma locate_data_dir: "locate cwd (data_dir file) = butlast (locate cwd (head_of file)) @ [''data'', ''ucd'']"
proof -
  have "\<not> startswith_sep OUTPUT_DIRECTORY_UCD"
    by (simp add: startswith_sep_def sep_def OUTPUT_DIRECTORY_UCD_def)
  then have "locate cwd (join (root_dir file) OUTPUT_DIRECTORY_UCD)
      = foldl walk (locate cwd (root_dir file)) (split_sep OUTPUT_DIRECTORY_UCD)"
    by (rule locate_join)
  moreover have "split_sep OUTPUT_DIRECTORY_UCD = [''data'', ''ucd'']"
    by (simp add: OUTPUT_DIRECTORY_UCD_def sep_def split_sep_Cons)
  ultimately show ?thesis by (simp add: data_dir_def locate_root_dir walk_def)
qed

lemma locate_sentinel:
  "locate (work_dir env) (sentinel (script_file env)) = sentinel_file env"
proof -
  have "\<not> startswith_sep ''Index.txt''" by (simp add: startswith_sep_def sep_def)
  then have "locate (work_dir env) (join (data_dir (script_file env)) ''Index.txt'')
      = foldl walk (locate (work_dir env) (data_dir (script_file env))) (split_sep ''Index.txt'')"
    by (rule locate_join)
  then show ?thesis
    by (simp add: sentinel_def sentinel_file_def output_dir_def sep_def walk_def split_sep_Cons)
qed

lemma locate_absolute: "startswith_sep p \<Longrightarrow> locate cwd p = locate cwd' p"
  by (simp add: locate_def)

lemma example_script_location:
  "locate cwd example_script = [''repo'', ''scripts'', ''download-unicode-data.py'']"
  by (simp add: example_script_def locate_def startswith_sep_def sep_def walk_def split_sep_Cons)

lemma example_basename: "basename example_script = ''download-unicode-data.py''"
  by (simp add: example_script_def basename_def sep_def)

subsection \<open>What the filesystem calls change\<close>

lemma writes_refl: "writes W fs fs"
  by (simp add: writes_def)

lemma writes_mono: "writes W fs fs' \<Longrightarrow> W \<subseteq> W' \<Longrightarrow> writes W' fs fs'"
  unfolding writes_def by blast

lemma writes_trans:
  assumes "writes W1 fs fs1" and "writes W2 fs1 fs2"
  shows "writes (W1 \<union> W2) fs fs2"
  unfolding writes_def
proof
  fix loc
  from assms(1) have a: "fs1 loc = fs loc \<or> (fs loc = None \<and> fs1 loc = Some Dir) \<or>
            (fs loc \<noteq> Some Dir \<and> (\<exists>c. (loc, c) \<in> W1 \<and> fs1 loc = Some (File c)))"
    unfolding writes_def by blast
  from assms(2) have b: "fs2 loc = fs1 loc \<or> (fs1 loc = None \<and> fs2 loc = Some Dir) \<or>
            (fs1 loc \<noteq> Some Dir \<and> (\<exists>c. (loc, c) \<in> W2 \<and> fs2 loc = Some (File c)))"
    unfolding writes_def by blast
  from a b show "fs2 loc = fs loc \<or> (fs loc = None \<and> fs2 loc = Some Dir) \<or>
            (fs loc \<noteq> Some Dir \<and> (\<exists>c. (loc, c) \<in> W1 \<union> W2 \<and> fs2 loc = Some (File c)))"
    by auto
qed

lemma writes_trans_same:
  "writes W fs fs1 \<Longrightarrow> writes W fs1 fs2 \<Longrightarrow> writes W fs fs2"
  using writes_trans [of W fs fs1 W fs2] by simp

lemma mkdir_writes: "mkdir fs loc = Inr fs' \<Longrightarrow> writes {} fs fs'"
  by (auto simp: mkdir_def writes_def split: if_splits option.splits)

lemma mkdir_leaf_writes: "mkdir_leaf ok fs name = (r, fs') \<Longrightarrow> writes {} fs fs'"
  by (auto simp: mkdir_leaf_def writes_refl mkdir_writes split: sum.splits if_splits)

lemma makedirs_writes: "makedirs ok fs name = (r, fs') \<Longrightarrow> writes {} fs fs'"
proof (induction ok fs name arbitrary: r fs' rule: makedirs.induct)
  case (1 ok fs name)
  show ?case
  proof (cases "name \<noteq> [] \<and> \<not> fs_exists fs (butlast name)")
    case False
    with "1.prems" have "mkdir_leaf ok fs name = (r, fs')"
      by (subst (asm) makedirs.simps) simp
    then show ?thesis by (rule mkdir_leaf_writes)
  next
    case True
    obtain r1 fs1 where rec: "makedirs ok fs (butlast name) = (r1, fs1)"
      by (cases "makedirs ok fs (butlast name)")
    from "1.IH" [OF True rec] have w1: "writes {} fs fs1" .
    from "1.prems" True rec
    have "(r, fs') = (r1, fs1) \<or> mkdir_leaf ok fs1 name = (r, fs')"
      by (subst (asm) makedirs.simps) (auto split: option.splits if_splits)
    then show ?thesis
    proof
      assume "(r, fs') = (r1, fs1)"
      with w1 show ?thesis by simp
    next
      assume "mkdir_leaf ok fs1 name = (r, fs')"
      then have "writes {} fs1 fs'" by (rule mkdir_leaf_writes)
      with w1 show ?thesis by (rule writes_trans_same)
    qed
  qed
qed

lemma put_member_writes:
  "put_member fs t m = Inr fs' \<Longrightarrow>
     writes (if is_dir m then {} else {(t, content m)}) fs fs'"
proof (cases "is_dir m")
  case True
  assume a: "put_member fs t m = Inr fs'"
  show ?thesis
  proof (cases "fs_isdir fs t")
    case True
    with a \<open>is_dir m\<close> show ?thesis by (simp add: put_member_def writes_refl)
  next
    case False
    with a \<open>is_dir m\<close> have "mkdir fs t = Inr fs'" by (simp add: put_member_def)
    then have "writes {} fs fs'" by (rule mkdir_writes)
    with \<open>is_dir m\<close> show ?thesis by simp
  qed
next
  case False
  assume a: "put_member fs t m = Inr fs'"
  with False show ?thesis
    by (auto simp: put_member_def write_file_def writes_def split: if_splits option.splits)
qed

lemma extract_member_writes:
  assumes "extract_member fs base m = (r, fs')"
  shows "writes (if is_dir m then {} else {(target base m, content m)}) fs fs'"
proof (cases "arcname_parts (filename m) = [] \<and> \<not> is_dir m")
  case True
  with assms show ?thesis by (simp add: extract_member_def writes_refl)
next
  case False
  let ?t = "base @ arcname_parts (filename m)"
  obtain r1 fs1 where up:
    "(if \<not> fs_exists fs (butlast ?t) then makedirs False fs (butlast ?t) else (None, fs)) = (r1, fs1)"
    by (cases "if \<not> fs_exists fs (butlast ?t) then makedirs False fs (butlast ?t) else (None, fs)")
  then have w1: "writes {} fs fs1"
    by (auto simp: writes_refl makedirs_writes split: if_splits)
  show ?thesis
  proof (cases r1)
    case (Some e)
    with assms False up have "fs' = fs1" by (simp add: extract_member_def Let_def)
    with w1 show ?thesis by (auto intro: writes_mono)
  next
    case None
    show ?thesis
    proof (cases "put_member fs1 ?t m")
      case (Inl e)
      with assms False up None have "fs' = fs1" by (simp add: extract_member_def Let_def)
      with w1 show ?thesis by (auto intro: writes_mono)
    next
      case (Inr fs2)
      with assms False up None have "fs' = fs2" by (simp add: extract_member_def Let_def)
      with Inr have "writes (if is_dir m then {} else {(?t, content m)}) fs1 fs'"
        using put_member_writes by blast
      with w1 have "writes ({} \<union> (if is_dir m then {} else {(?t, content m)})) fs fs'"
        by (rule writes_trans)
      then show ?thesis by (cases "is_dir m") (simp_all add: target_def)
    qed
  qed
qed

lemma extractall_writes:
  "extractall fs base ms = (r, fs') \<Longrightarrow> writes (file_writes base ms) fs fs'"
proof (induction ms arbitrary: fs)
  case Nil
  then show ?case by (simp add: writes_refl)
next
  case (Cons m ms)
  obtain r1 fs1 where one: "extract_member fs base m = (r1, fs1)"
    by (cases "extract_member fs base m")
  then have w1: "writes (file_writes base (m # ms)) fs fs1"
    by (rule writes_mono [OF extract_member_writes]) (auto simp: file_writes_def)
  show ?case
  proof (cases r1)
    case (Some e)
    with Cons.prems one have "fs' = fs1" by simp
    with w1 show ?thesis by simp
  next
    case None
    with Cons.prems one have "extractall fs1 base ms = (r, fs')" by simp
    then have "writes (file_writes base ms) fs1 fs'" by (rule Cons.IH)
    then have "writes (file_writes base (m # ms)) fs1 fs'"
      by (rule writes_mono) (auto simp: file_writes_def)
    with w1 show ?thesis by (rule writes_trans_same)
  qed
qed

lemma writes_dir: "writes W fs fs' \<Longrightarrow> fs_isdir fs loc \<Longrightarrow> fs_isdir fs' loc"
  unfolding writes_def fs_isdir_def node_at_def by (metis)

lemma writes_exists: "writes W fs fs' \<Longrightarrow> fs_exists fs loc \<Longrightarrow> fs_exists fs' loc"
  unfolding writes_def fs_exists_def node_at_def by (metis option.distinct(1))

lemma writes_file_kept:
  "writes W fs fs' \<Longrightarrow> fs loc = Some (File c) \<Longrightarrow> \<forall>c'. (loc, c') \<notin> W \<Longrightarrow> fs' loc = Some (File c)"
  unfolding writes_def by (metis option.distinct(1))

lemma writes_new_file:
  "writes W fs fs' \<Longrightarrow> fs_isfile fs' loc \<Longrightarrow> fs_isfile fs loc \<or> (\<exists>c. (loc, c) \<in> W)"
  unfolding writes_def fs_isfile_def node_at_def
  by (cases "loc = []"; simp split: option.splits node.splits; metis option.inject option.distinct(1) node.distinct(1))

subsection \<open>\<open>makedirs\<close>\<close>

lemma mkdir_leaf_ok_isdir: "mkdir_leaf ok fs name = (None, fs') \<Longrightarrow> fs_isdir fs' name"
  by (auto simp: mkdir_leaf_def mkdir_def fs_isdir_def node_at_def
      split: sum.splits if_splits option.splits)

lemma makedirs_unfold:
  "makedirs ok fs name = (r, fs') \<Longrightarrow>
     (\<not> (name \<noteq> [] \<and> \<not> fs_exists fs (butlast name)) \<and> mkdir_leaf ok fs name = (r, fs')) \<or>
     (name \<noteq> [] \<and> \<not> fs_exists fs (butlast name) \<and>
      (\<exists>r1 fs1. makedirs ok fs (butlast name) = (r1, fs1) \<and>
         ((r1 = None \<or> r1 = Some EEXIST) \<and> mkdir_leaf ok fs1 name = (r, fs') \<or>
          r1 \<noteq> None \<and> r1 \<noteq> Some EEXIST \<and> r = r1 \<and> fs' = fs1)))"
  by (subst (asm) makedirs.simps) (auto split: prod.splits option.splits if_splits)

lemma makedirs_ok_isdir: "makedirs ok fs name = (None, fs') \<Longrightarrow> fs_isdir fs' name"
  by (drule makedirs_unfold) (auto dest: mkdir_leaf_ok_isdir)

lemma mkdir_leaf_eexist: "mkdir_leaf ok fs name = (Some EEXIST, fs') \<Longrightarrow> fs_exists fs' name"
  by (auto simp: mkdir_leaf_def mkdir_def fs_exists_def node_at_def parent_errno_def
      split: sum.splits if_splits option.splits node.splits)

lemma makedirs_eexist: "makedirs ok fs name = (Some EEXIST, fs') \<Longrightarrow> fs_exists fs' name"
  by (drule makedirs_unfold) (auto dest: mkdir_leaf_eexist)

lemma makedirs_ok_parent:
  assumes "makedirs ok fs name = (None, fs')"
  shows "fs_exists fs' (butlast name)"
proof -
  from makedirs_unfold [OF assms]
  consider (leaf) "\<not> (name \<noteq> [] \<and> \<not> fs_exists fs (butlast name))"
      "mkdir_leaf ok fs name = (None, fs')"
    | (rec) r1 fs1 where "makedirs ok fs (butlast name) = (r1, fs1)"
      "r1 = None \<or> r1 = Some EEXIST" "mkdir_leaf ok fs1 name = (None, fs')"
    by auto
  then show ?thesis
  proof cases
    case leaf
    from leaf(1) have "fs_exists fs (butlast name)" by (auto simp: fs_exists_def node_at_def)
    with mkdir_leaf_writes [OF leaf(2)] show ?thesis by (rule writes_exists)
  next
    case rec
    from rec(1,2) have "fs_exists fs1 (butlast name)"
      using makedirs_ok_isdir [of ok fs "butlast name" fs1]
        makedirs_eexist [of ok fs "butlast name" fs1]
      by (auto simp: fs_isdir_def fs_exists_def)
    with mkdir_leaf_writes [OF rec(3)] show ?thesis by (rule writes_exists)
  qed
qed

lemma makedirs_existing:
  assumes "fs_isdir fs name" and "fs_exists fs (butlast name)"
  shows "makedirs True fs name = (None, fs)"
proof -
  have "mkdir_leaf True fs name = (None, fs)"
    using assms(1)
    by (auto simp: mkdir_leaf_def mkdir_def fs_isdir_def node_at_def split: sum.splits if_splits option.splits)
  with assms(2) show ?thesis by (subst makedirs.simps) simp
qed

lemma tree_parent: "tree fs \<Longrightarrow> fs_isdir fs q \<Longrightarrow> fs_isdir fs (butlast q)"
  by (cases "q = []") (auto simp: tree_def fs_isdir_def node_at_def)

lemma tree_prefix_dirs:
  assumes "tree fs" and "fs_isdir fs p"
  shows "fs_isdir fs (take n p)"
proof -
  have "fs_isdir fs (take (length p - k) p)" for k
  proof (induction k)
    case 0
    show ?case using assms(2) by simp
  next
    case (Suc k)
    have "take (length p - Suc k) p = butlast (take (length p - k) p)"
      by (simp add: butlast_take)
    with tree_parent [OF assms(1) Suc] show ?case by simp
  qed
  from this [of "length p - n"] assms(2) show ?thesis
    by (cases "n \<le> length p") simp_all
qed

lemma take_butlast_eq: "take n (butlast xs) = take (min n (length xs - 1)) xs"
  by (simp add: butlast_conv_take min.commute)

lemma not_file_dir: "fs_exists fs p \<Longrightarrow> \<not> fs_isfile fs p \<Longrightarrow> fs_isdir fs p"
  by (auto simp: fs_exists_def fs_isfile_def fs_isdir_def split: option.splits node.splits)

lemma makedirs_creates:
  "tree fs \<Longrightarrow> (\<forall>n. \<not> fs_isfile fs (take n name)) \<Longrightarrow>
     \<exists>fs'. makedirs True fs name = (None, fs') \<and>
           (\<forall>n. fs_isdir fs' (take n name)) \<and>
           (\<forall>loc. fs' loc = fs loc \<or>
              (fs loc = None \<and> fs' loc = Some Dir \<and> (\<exists>n. loc = take n name)))"
proof (induction True fs name rule: makedirs.induct)
  case (1 fs name)
  show ?case
  proof (cases "name \<noteq> [] \<and> \<not> fs_exists fs (butlast name)")
    case False
    have unf: "makedirs True fs name = mkdir_leaf True fs name"
      using False by (subst makedirs.simps) auto
    have par: "fs_isdir fs (butlast name)"
    proof (cases "name = []")
      case True
      then show ?thesis by (simp add: fs_isdir_def node_at_def)
    next
      case nonempty: False
      with False have ex: "fs_exists fs (butlast name)" by simp
      have "\<not> fs_isfile fs (take (length name - 1) name)" using "1.prems"(2) by blast
      then have "\<not> fs_isfile fs (butlast name)" by (simp add: butlast_conv_take)
      with ex show ?thesis by (rule not_file_dir)
    qed
    have pre: "fs_isdir fs (take n name)" if "n < length name" for n
    proof -
      have "take n name = take n (butlast name)" using that by (simp add: take_butlast)
      with tree_prefix_dirs [OF "1.prems"(1) par, of n] show ?thesis by simp
    qed
    show ?thesis
    proof (cases "fs_exists fs name")
      case True
      have "\<not> fs_isfile fs (take (length name) name)" using "1.prems"(2) by blast
      then have "\<not> fs_isfile fs name" by simp
      with True have d: "fs_isdir fs name" by (rule not_file_dir)
      then have "mkdir_leaf True fs name = (None, fs)"
        by (auto simp: mkdir_leaf_def mkdir_def fs_isdir_def node_at_def
            split: sum.splits if_splits option.splits)
      moreover have "fs_isdir fs (take n name)" for n
        using pre [of n] d by (cases "n < length name") simp_all
      ultimately show ?thesis using unf by simp
    next
      case absent: False
      then have ne: "name \<noteq> []" and none: "fs name = None"
        by (auto simp: fs_exists_def node_at_def split: if_splits)
      from par ne none have "mkdir_leaf True fs name = (None, fs(name \<mapsto> Dir))"
        by (simp add: mkdir_leaf_def mkdir_def parent_errno_def fs_isdir_def)
      moreover have "fs_isdir (fs(name \<mapsto> Dir)) (take n name)" for n
      proof (cases "n < length name")
        case True
        have "take n name \<noteq> name"
        proof
          assume "take n name = name"
          then have "length (take n name) = length name" by simp
          with True show False by simp
        qed
        with pre [OF True] show ?thesis
          by (auto simp: fs_isdir_def node_at_def split: if_splits)
      next
        case False
        then show ?thesis using ne by (simp add: fs_isdir_def node_at_def)
      qed
      moreover have "\<forall>loc. (fs(name \<mapsto> Dir)) loc = fs loc \<or>
          (fs loc = None \<and> (fs(name \<mapsto> Dir)) loc = Some Dir \<and> (\<exists>n. loc = take n name))"
      proof
        fix loc
        have "name = take (length name) name" by simp
        then have "\<exists>n. name = take n name" by blast
        with none show "(fs(name \<mapsto> Dir)) loc = fs loc \<or>
          (fs loc = None \<and> (fs(name \<mapsto> Dir)) loc = Some Dir \<and> (\<exists>n. loc = take n name))"
          by (cases "loc = name") simp_all
      qed
      ultimately show ?thesis using unf by simp
    qed
  next
    case True
    then have ne: "name \<noteq> []" and nopar: "\<not> fs_exists fs (butlast name)" by simp_all
    have "\<forall>n. \<not> fs_isfile fs (take n (butlast name))"
      using "1.prems"(2) by (simp add: take_butlast_eq)
    from "1.hyps" [OF True "1.prems"(1) this]
    obtain fs1 where rec: "makedirs True fs (butlast name) = (None, fs1)"
      and dirs: "\<forall>n. fs_isdir fs1 (take n (butlast name))"
      and frame: "\<forall>loc. fs1 loc = fs loc \<or>
              (fs loc = None \<and> fs1 loc = Some Dir \<and> (\<exists>n. loc = take n (butlast name)))"
      by blast
    have unf: "makedirs True fs name = mkdir_leaf True fs1 name"
      using True rec by (subst makedirs.simps) simp
    from dirs have "fs_isdir fs1 (take (length (butlast name)) (butlast name))" by blast
    then have par: "fs_isdir fs1 (butlast name)" by simp
    have "fs name = None"
    proof (rule ccontr)
      assume "fs name \<noteq> None"
      with "1.prems"(1) have "fs_isdir fs (butlast name)" by (simp add: tree_def)
      with nopar show False by (simp add: fs_isdir_def fs_exists_def)
    qed
    moreover have "name \<noteq> take n (butlast name)" for n
    proof
      assume "name = take n (butlast name)"
      then have "length name = length (take n (butlast name))" by simp
      moreover have "length (take n (butlast name)) \<le> length name - 1" by simp
      ultimately have "length name \<le> length name - 1" by (simp only:)
      moreover from ne have "0 < length name" by simp
      ultimately show False by arith
    qed
    moreover from frame have "fs1 name = fs name \<or>
        (fs name = None \<and> fs1 name = Some Dir \<and> (\<exists>n. name = take n (butlast name)))" by blast
    ultimately have none: "fs1 name = None" by auto
    from par ne none have leaf: "mkdir_leaf True fs1 name = (None, fs1(name \<mapsto> Dir))"
      by (simp add: mkdir_leaf_def mkdir_def parent_errno_def fs_isdir_def)
    have "fs_isdir (fs1(name \<mapsto> Dir)) (take n name)" for n
    proof (cases "n < length name")
      case less: True
      have neq: "take n name \<noteq> name"
      proof
        assume "take n name = name"
        then have "length (take n name) = length name" by simp
        with less show False by simp
      qed
      have "take n name = take n (butlast name)" using less by (simp add: take_butlast)
      with dirs have "fs_isdir fs1 (take n name)" by simp
      with neq show ?thesis by (auto simp: fs_isdir_def node_at_def split: if_splits)
    next
      case False
      then show ?thesis using ne by (simp add: fs_isdir_def node_at_def)
    qed
    moreover have "\<forall>loc. (fs1(name \<mapsto> Dir)) loc = fs loc \<or>
          (fs loc = None \<and> (fs1(name \<mapsto> Dir)) loc = Some Dir \<and> (\<exists>n. loc = take n name))"
    proof
      fix loc
      show "(fs1(name \<mapsto> Dir)) loc = fs loc \<or>
          (fs loc = None \<and> (fs1(name \<mapsto> Dir)) loc = Some Dir \<and> (\<exists>n. loc = take n name))"
      proof (cases "loc = name")
        case True
        have "name = take (length name) name" by simp
        then have "\<exists>n. name = take n name" by blast
        with True \<open>fs name = None\<close> show ?thesis by simp
      next
        case False
        from frame have "fs1 loc = fs loc \<or>
              (fs loc = None \<and> fs1 loc = Some Dir \<and> (\<exists>n. loc = take n (butlast name)))" by blast
        moreover have "\<exists>k. loc = take k name" if "loc = take n (butlast name)" for n
          using that by (auto simp: take_butlast_eq)
        ultimately show ?thesis using False by auto
      qed
    qed
    ultimately show ?thesis using unf leaf by simp
  qed
qed

subsection \<open>\<open>extractall\<close>\<close>

lemma extract_member_ok:
  assumes "extract_member fs base m = (None, fs')"
  shows "(is_dir m \<longrightarrow> fs_isdir fs' (target base m)) \<and>
         (\<not> is_dir m \<longrightarrow> fs' (target base m) = Some (File (content m)))"
proof -
  let ?t = "base @ arcname_parts (filename m)"
  from assms have ok: "\<not> (arcname_parts (filename m) = [] \<and> \<not> is_dir m)"
    by (auto simp: extract_member_def split: if_splits)
  obtain r1 fs1 where up:
    "(if \<not> fs_exists fs (butlast ?t) then makedirs False fs (butlast ?t) else (None, fs)) = (r1, fs1)"
    by (cases "if \<not> fs_exists fs (butlast ?t) then makedirs False fs (butlast ?t) else (None, fs)")
  from assms ok up have put: "put_member fs1 ?t m = Inr fs'"
    by (cases r1; cases "put_member fs1 ?t m") (simp_all add: extract_member_def Let_def)
  show ?thesis
  proof (cases "is_dir m")
    case True
    with put have "fs_isdir fs' ?t"
      by (auto simp: put_member_def mkdir_def fs_isdir_def node_at_def
          split: if_splits option.splits)
    with True show ?thesis by (simp add: target_def)
  next
    case False
    with put have "fs' ?t = Some (File (content m))"
      by (auto simp: put_member_def write_file_def split: if_splits option.splits)
    with False show ?thesis by (simp add: target_def)
  qed
qed

lemma extractall_dirs_kept:
  "extractall fs base ms = (r, fs') \<Longrightarrow> fs_isdir fs loc \<Longrightarrow> fs_isdir fs' loc"
  using extractall_writes writes_dir by blast

lemma last_filter_Cons:
  "filter P xs \<noteq> [] \<Longrightarrow> last (filter P (x # xs)) = last (filter P xs)"
  by simp

lemma extractall_members:
  "extractall fs base ms = (None, fs') \<Longrightarrow> m \<in> set ms \<Longrightarrow>
     (is_dir m \<longrightarrow> fs_isdir fs' (target base m)) \<and>
     (\<not> is_dir m \<longrightarrow>
        fs' (target base m) =
          Some (File (content (last (filter (\<lambda>m'. \<not> is_dir m' \<and> target base m' = target base m) ms)))))"
proof (induction ms arbitrary: fs m)
  case Nil
  then show ?case by simp
next
  case (Cons m0 ms)
  let ?P = "\<lambda>m'. \<not> is_dir m' \<and> target base m' = target base m"
  obtain r1 fs1 where one: "extract_member fs base m0 = (r1, fs1)"
    by (cases "extract_member fs base m0")
  with Cons.prems(1) have r1: "r1 = None" and rest: "extractall fs1 base ms = (None, fs')"
    by (cases r1; simp)+
  from one r1 have first: "extract_member fs base m0 = (None, fs1)" by simp
  show ?case
  proof (intro conjI impI)
    assume d: "is_dir m"
    show "fs_isdir fs' (target base m)"
    proof (cases "m \<in> set ms")
      case True
      from Cons.IH [OF rest True] d show ?thesis by simp
    next
      case False
      with Cons.prems(2) have "m = m0" by simp
      with extract_member_ok [OF first] d have "fs_isdir fs1 (target base m)" by simp
      with rest show ?thesis by (rule extractall_dirs_kept)
    qed
  next
    assume f: "\<not> is_dir m"
    show "fs' (target base m) = Some (File (content (last (filter ?P (m0 # ms)))))"
    proof (cases "filter ?P ms = []")
      case False
      then obtain m' where m': "m' \<in> set ms" "\<not> is_dir m'" "target base m' = target base m"
        by (metis (mono_tags, lifting) filter_False)
      have eq: "filter (\<lambda>x. \<not> is_dir x \<and> target base x = target base m') ms = filter ?P ms"
        using m'(3) by simp
      from Cons.IH [OF rest m'(1)] m'(2) eq
      have "fs' (target base m') = Some (File (content (last (filter ?P ms))))" by simp
      moreover from False have "last (filter ?P (m0 # ms)) = last (filter ?P ms)"
        by (rule last_filter_Cons)
      ultimately show ?thesis using m'(3) by simp
    next
      case True
      have "m \<notin> set ms"
      proof
        assume "m \<in> set ms"
        with f have "m \<in> set (filter ?P ms)" by simp
        with True show False by simp
      qed
      with Cons.prems(2) have m: "m = m0" by simp
      with f True have l: "last (filter ?P (m0 # ms)) = m0" by simp
      from extract_member_ok [OF first] f m
      have at: "fs1 (target base m) = Some (File (content m0))" by simp
      have "\<forall>c'. (target base m, c') \<notin> file_writes base ms"
      proof (intro allI notI)
        fix c' assume "(target base m, c') \<in> file_writes base ms"
        then obtain x where "x \<in> set ms" "\<not> is_dir x" "target base x = target base m"
          by (auto simp: file_writes_def)
        then have "x \<in> set (filter ?P ms)" by simp
        with True show False by simp
      qed
      with extractall_writes [OF rest] at
      have "fs' (target base m) = Some (File (content m0))" by (rule writes_file_kept)
      with l show ?thesis by simp
    qed
  qed
qed

lemma extractall_new_file:
  assumes "extractall fs base ms = (r, fs')" and "fs_isfile fs' loc" and "\<not> fs_isfile fs loc"
  shows "\<exists>m\<in>set ms. \<not> is_dir m \<and> target base m = loc"
proof -
  from writes_new_file [OF extractall_writes [OF assms(1)] assms(2)] assms(3)
  obtain c where "(loc, c) \<in> file_writes base ms" by blast
  then show ?thesis by (auto simp: file_writes_def)
qed




subsection \<open>Archives that fit the disk\<close>




















subsection \<open>\<open>%d\<close> prints the number\<close>

lemma digit_char: "d < 10 \<Longrightarrow> of_char (''0123456789'' ! d) = (48 + d :: nat)"
proof -
  assume "d < 10"
  then have "d \<in> {0, 1, 2, 3, 4, 5, 6, 7, 8, 9}" by auto
  then show ?thesis by auto
qed

lemma decimal_snoc: "decimal (s @ [c]) = 10 * decimal s + (of_char c - 48)"
  by (simp add: decimal_def)

lemma decimal_str_nat: "decimal (str_nat n) = n"
proof (induction n rule: str_nat.induct)
  case (1 n)
  show ?case
  proof (cases "n < 10")
    case True
    then show ?thesis by (subst str_nat.simps) (simp add: decimal_def digit_char)
  next
    case False
    have "n mod 10 < 10" by simp
    with False "1.IH" show ?thesis
      by (subst str_nat.simps) (simp add: decimal_snoc digit_char)
  qed
qed

subsection \<open>The paths through \<open>process_ucd\<close>\<close>

lemma process_ucd_skip:
  assumes "fs_isfile (disk w) (sentinel_file env)"
  shows "process_ucd env w = (Returned, w\<lparr>trace := trace w @ [Print [], Print skip_message]\<rparr>)"
  using assms by (simp add: process_ucd_def Let_def emit_def locate_sentinel)

lemma process_ucd_download:
  assumes "\<not> fs_isfile (disk w) (sentinel_file env)"
  shows "process_ucd env w = download env (emit (Print []) w)"
  using assms by (simp add: process_ucd_def Let_def emit_def locate_sentinel)

lemma download_makedirs_fails:
  assumes "makedirs True (disk w) (output_dir env) = (Some e, fs')"
  shows "download env w = (Raised (OSError e), w\<lparr>disk := fs', trace := trace w @ [MakeDirs (output_dir env)]\<rparr>)"
  using assms by (simp add: download_def Let_def emit_def output_dir_def)

lemma download_urlopen_fails:
  assumes "makedirs True (disk w) (output_dir env) = (None, fs')"
    and "urlopen (network env) ucd_url = Inl e"
  shows "download env w = (Raised e, w\<lparr>disk := fs', trace := trace w @
           [MakeDirs (output_dir env), Print downloading_message, UrlOpen ucd_url]\<rparr>)"
  using assms by (simp add: download_def Let_def emit_def output_dir_def)

lemma download_not_200:
  assumes "makedirs True (disk w) (output_dir env) = (None, fs')"
    and "urlopen (network env) ucd_url = Inr resp" and "status resp \<noteq> 200"
  shows "download env w = (Returned, w\<lparr>disk := fs', trace := trace w @
           [MakeDirs (output_dir env), Print downloading_message, UrlOpen ucd_url,
            Print (failed_message (status resp))]\<rparr>)"
  using assms by (simp add: download_def Let_def emit_def output_dir_def)

lemma download_200:
  assumes "makedirs True (disk w) (output_dir env) = (None, fs')"
    and "urlopen (network env) ucd_url = Inr resp" and "status resp = 200"
  shows "download env w = unpack env resp (w\<lparr>disk := fs', trace := trace w @
           [MakeDirs (output_dir env), Print downloading_message, UrlOpen ucd_url]\<rparr>)"
  using assms by (simp add: download_def Let_def emit_def output_dir_def)

lemma unpack_bad_zip:
  assumes "decoder env (body resp) = None"
  shows "unpack env resp w = (Raised BadZipFile, w\<lparr>trace := trace w @
           [Read (length (body resp)), Print (downloaded_message (body resp)), ZipOpen (body resp)]\<rparr>)"
  using assms by (simp add: unpack_def Let_def emit_def ZipFile_def)

lemma unpack_extract_fails:
  assumes "decoder env (body resp) = Some ms"
    and "extractall (disk w) (output_dir env) ms = (Some e, fs')"
  shows "unpack env resp w = (Raised e, w\<lparr>disk := fs', trace := trace w @
           [Read (length (body resp)), Print (downloaded_message (body resp)), ZipOpen (body resp),
            ExtractAll (output_dir env)]\<rparr>)"
  using assms by (simp add: unpack_def Let_def emit_def ZipFile_def output_dir_def)

lemma unpack_extracts:
  assumes "decoder env (body resp) = Some ms"
    and "extractall (disk w) (output_dir env) ms = (None, fs')"
  shows "unpack env resp w = (Returned, w\<lparr>disk := fs', trace := trace w @
           [Read (length (body resp)), Print (downloaded_message (body resp)), ZipOpen (body resp),
            ExtractAll (output_dir env), Print extracted_message]\<rparr>)"
  using assms by (simp add: unpack_def Let_def emit_def ZipFile_def output_dir_def)

text \<open>
  A reply with a status outside 200 to 299 never reaches the test of the status:
  \<open>urlopen\<close> has raised. A reply with another status from 200 to 299 does.
\<close>

lemma error_status_raises:
  assumes "\<not> fs_isfile (disk w) (sentinel_file env)"
    and "makedirs True (disk w) (output_dir env) = (None, fs1)"
    and "network env ucd_url = Reply code b" and "\<not> (200 \<le> code \<and> code < 300)"
  shows "process_ucd env w = (Raised (HTTPError code),
           w\<lparr>disk := fs1, trace := trace w @
             [Print [], MakeDirs (output_dir env), Print downloading_message, UrlOpen ucd_url]\<rparr>)"
proof -
  have u: "urlopen (network env) ucd_url = Inl (HTTPError code)"
    using assms(3,4) by (simp add: urlopen_def)
  have m: "makedirs True (disk (emit (Print []) w)) (output_dir env) = (None, fs1)"
    using assms(2) by (simp add: emit_def)
  from m u have "download env (emit (Print []) w) = (Raised (HTTPError code),
      (emit (Print []) w)\<lparr>disk := fs1, trace := trace (emit (Print []) w) @
           [MakeDirs (output_dir env), Print downloading_message, UrlOpen ucd_url]\<rparr>)"
    by (rule download_urlopen_fails)
  then show ?thesis
    by (simp add: process_ucd_download [OF assms(1)] emit_def)
qed

lemma other_success_status_is_soft_failure:
  assumes "\<not> fs_isfile (disk w) (sentinel_file env)"
    and "makedirs True (disk w) (output_dir env) = (None, fs1)"
    and "network env ucd_url = Reply code b" and "200 < code" and "code < 300"
  shows "process_ucd env w = (Returned,
           w\<lparr>disk := fs1, trace := trace w @
             [Print [], MakeDirs (output_dir env), Print downloading_message, UrlOpen ucd_url,
              Print (failed_message code)]\<rparr>)"
proof -
  have u: "urlopen (network env) ucd_url = Inr \<lparr>status = code, body = b\<rparr>"
    using assms(3,4,5) by (simp add: urlopen_def)
  have m: "makedirs True (disk (emit (Print []) w)) (output_dir env) = (None, fs1)"
    using assms(2) by (simp add: emit_def)
  have "status \<lparr>status = code, body = b\<rparr> \<noteq> 200" using assms(4) by simp
  with m u have "download env (emit (Print []) w) = (Returned, (emit (Print []) w)\<lparr>disk := fs1,
      trace := trace (emit (Print []) w) @
           [MakeDirs (output_dir env), Print downloading_message, UrlOpen ucd_url,
            Print (failed_message (status \<lparr>status = code, body = b\<rparr>))]\<rparr>)"
    by (rule download_not_200)
  then show ?thesis
    by (simp add: process_ucd_download [OF assms(1)] emit_def)
qed

lemma download_started:
  assumes "makedirs True (disk w) (output_dir env) = (None, fs1)"
  shows "\<exists>rest. trace (snd (download env w)) =
           trace w @ [MakeDirs (output_dir env), Print downloading_message, UrlOpen ucd_url] @ rest
         \<and> requests \<lparr>disk = d, trace = rest\<rparr> = []"
proof (cases "urlopen (network env) ucd_url")
  case (Inl e)
  from download_urlopen_fails [OF assms Inl] show ?thesis by (simp add: requests_def)
next
  case (Inr resp)
  show ?thesis
  proof (cases "status resp = 200")
    case False
    from download_not_200 [OF assms Inr False] show ?thesis by (simp add: requests_def)
  next
    case True
    let ?w3 = "w\<lparr>disk := fs1, trace := trace w @
           [MakeDirs (output_dir env), Print downloading_message, UrlOpen ucd_url]\<rparr>"
    note p = download_200 [OF assms Inr True]
    show ?thesis
    proof (cases "decoder env (body resp)")
      case None
      from unpack_bad_zip [OF None, of ?w3] show ?thesis by (simp add: p requests_def)
    next
      case (Some ms)
      obtain r2 fs2 where x: "extractall (disk ?w3) (output_dir env) ms = (r2, fs2)"
        by (cases "extractall (disk ?w3) (output_dir env) ms")
      show ?thesis
      proof (cases r2)
        case None
        with x have "extractall (disk ?w3) (output_dir env) ms = (None, fs2)" by simp
        from unpack_extracts [OF Some this] show ?thesis by (simp add: p requests_def)
      next
        case (Some e)
        with x have "extractall (disk ?w3) (output_dir env) ms = (Some e, fs2)" by simp
        from unpack_extract_fails [OF \<open>decoder env (body resp) = Some ms\<close> this] show ?thesis
          by (simp add: p requests_def)
      qed
    qed
  qed
qed

lemma download_requests:
  assumes "makedirs True (disk w) (output_dir env) = (None, fs1)"
  shows "requests (snd (download env w)) = requests w @ [ucd_url]"
proof -
  from download_started [OF assms, of "disk w"] obtain rest where
    t: "trace (snd (download env w)) =
           trace w @ [MakeDirs (output_dir env), Print downloading_message, UrlOpen ucd_url] @ rest"
    and r: "requests \<lparr>disk = disk w, trace = rest\<rparr> = []" by blast
  from r have "concat (map (\<lambda>e. case e of UrlOpen u \<Rightarrow> [u] | _ \<Rightarrow> []) rest) = []"
    by (simp add: requests_def)
  with t show ?thesis by (simp add: requests_def)
qed

lemma download_extracts:
  assumes "makedirs True (disk w) (output_dir env) = (None, fs1)"
    and "urlopen (network env) ucd_url = Inr resp" and "status resp = 200"
    and "decoder env (body resp) = Some ms"
  shows "ExtractAll (output_dir env) \<in> set (drop (length (trace w)) (trace (snd (download env w))))
       \<and> disk (snd (download env w)) = snd (extractall fs1 (output_dir env) ms)
       \<and> (fst (download env w) = Returned \<longleftrightarrow> fst (extractall fs1 (output_dir env) ms) = None)"
proof -
  let ?w3 = "w\<lparr>disk := fs1, trace := trace w @
           [MakeDirs (output_dir env), Print downloading_message, UrlOpen ucd_url]\<rparr>"
  note p = download_200 [OF assms(1-3)]
  obtain r2 fs2 where x: "extractall fs1 (output_dir env) ms = (r2, fs2)"
    by (cases "extractall fs1 (output_dir env) ms")
  then have x': "extractall (disk ?w3) (output_dir env) ms = (r2, fs2)" by simp
  show ?thesis
  proof (cases r2)
    case None
    with x' have "extractall (disk ?w3) (output_dir env) ms = (None, fs2)" by simp
    from unpack_extracts [OF assms(4) this] show ?thesis by (simp add: p x None)
  next
    case (Some e)
    with x' have "extractall (disk ?w3) (output_dir env) ms = (Some e, fs2)" by simp
    from unpack_extract_fails [OF assms(4) this] show ?thesis by (simp add: p x Some)
  qed
qed

lemma download_first_call:
  "\<exists>rest. trace (snd (download env w)) = trace w @ [MakeDirs (output_dir env)] @ rest"
proof (cases "makedirs True (disk w) (output_dir env)")
  case (Pair r fs1)
  show ?thesis
  proof (cases r)
    case None
    with Pair have "makedirs True (disk w) (output_dir env) = (None, fs1)" by simp
    from download_started [OF this, of "disk w"] show ?thesis by auto
  next
    case (Some e)
    with Pair have "makedirs True (disk w) (output_dir env) = (Some e, fs1)" by simp
    from download_makedirs_fails [OF this] show ?thesis by simp
  qed
qed

lemma no_file_from_dirs:
  "writes {} fs fs' \<Longrightarrow> \<not> fs_isfile fs loc \<Longrightarrow> \<not> fs_isfile fs' loc"
  using writes_new_file [of "{}" fs fs' loc] by blast

lemma download_sentinel_from_archive:
  assumes "\<not> fs_isfile (disk w) (sentinel_file env)"
    and "fs_isfile (disk (snd (download env w))) (sentinel_file env)"
  shows "\<exists>resp ms. urlopen (network env) ucd_url = Inr resp \<and> status resp = 200 \<and>
           decoder env (body resp) = Some ms \<and>
           (\<exists>m\<in>set ms. \<not> is_dir m \<and> arcname_parts (filename m) = [''Index.txt''])"
proof -
  let ?s = "sentinel_file env" and ?dir = "output_dir env"
  obtain r fs1 where m: "makedirs True (disk w) ?dir = (r, fs1)"
    by (cases "makedirs True (disk w) ?dir")
  from makedirs_writes [OF m] assms(1) have nf: "\<not> fs_isfile fs1 ?s" by (rule no_file_from_dirs)
  show ?thesis
  proof (cases r)
    case (Some e)
    with m have "makedirs True (disk w) ?dir = (Some e, fs1)" by simp
    from download_makedirs_fails [OF this] assms(2) nf show ?thesis by simp
  next
    case None
    with m have ok: "makedirs True (disk w) ?dir = (None, fs1)" by simp
    show ?thesis
    proof (cases "urlopen (network env) ucd_url")
      case (Inl e)
      from download_urlopen_fails [OF ok Inl] assms(2) nf show ?thesis by simp
    next
      case (Inr resp)
      show ?thesis
      proof (cases "status resp = 200")
        case False
        from download_not_200 [OF ok Inr False] assms(2) nf show ?thesis by simp
      next
        case True
        show ?thesis
        proof (cases "decoder env (body resp)")
          case None
          from unpack_bad_zip [OF None] download_200 [OF ok Inr True] assms(2) nf
          show ?thesis by simp
        next
          case (Some ms)
          from download_extracts [OF ok Inr True Some] assms(2)
          have f: "fs_isfile (snd (extractall fs1 ?dir ms)) ?s" by simp
          obtain r2 fs2 where e: "extractall fs1 ?dir ms = (r2, fs2)"
            by (cases "extractall fs1 ?dir ms")
          with f have "fs_isfile fs2 ?s" by simp
          from extractall_new_file [OF e this nf]
          obtain m where "m \<in> set ms" "\<not> is_dir m" "target ?dir m = ?s" by blast
          then have "\<exists>m\<in>set ms. \<not> is_dir m \<and> arcname_parts (filename m) = [''Index.txt'']"
            by (auto simp: target_def sentinel_file_def)
          with Inr True Some show ?thesis by blast
        qed
      qed
    qed
  qed
qed

lemma download_returned_made:
  assumes "fst (download env w) = Returned"
  shows "\<exists>fs1. makedirs True (disk w) (output_dir env) = (None, fs1)"
proof (cases "makedirs True (disk w) (output_dir env)")
  case (Pair r fs1)
  show ?thesis
  proof (cases r)
    case None
    with Pair show ?thesis by simp
  next
    case (Some e)
    with Pair have "makedirs True (disk w) (output_dir env) = (Some e, fs1)" by simp
    from download_makedirs_fails [OF this] assms show ?thesis by simp
  qed
qed

subsection \<open>The example checkout, evaluated\<close>

lemma example_output_dir: "output_dir (example_env r) = [''repo'', ''data'', ''ucd'']"
proof -
  have "head_of example_script = ''/repo/scripts/''"
    by (simp add: example_script_def head_of_def sep_def)
  moreover have "locate [''home''] ''/repo/scripts/'' = [''repo'', ''scripts'']"
    by (simp add: locate_def startswith_sep_def sep_def walk_def split_sep_Cons)
  ultimately show ?thesis
    by (simp add: output_dir_def example_env_def locate_data_dir)
qed

lemma example_sentinel_file:
  "sentinel_file (example_env r) = [''repo'', ''data'', ''ucd'', ''Index.txt'']"
  by (simp add: sentinel_file_def example_output_dir)

lemma example_makedirs:
  "makedirs True example_disk [''repo'', ''data'', ''ucd''] = (None, made_disk)"
  by (simp add: makedirs.simps mkdir_leaf_def mkdir_def parent_errno_def fs_exists_def
      fs_isdir_def node_at_def example_disk_def made_disk_def)

lemma example_tree: "tree example_disk"
  by (auto simp: tree_def example_disk_def fs_isdir_def node_at_def split: if_splits)

lemma example_arcnames:
  "arcname_parts ''Index.txt'' = [''Index.txt'']"
  "arcname_parts ''extracted/'' = [''extracted'']"
  "arcname_parts ''extracted/DerivedAge.txt'' = [''extracted'', ''DerivedAge.txt'']"
  "arcname_parts ''ReadMe.txt'' = [''ReadMe.txt'']"
  by (simp_all add: arcname_parts_def sep_def split_sep_Cons)

lemma example_extractall:
  "extractall made_disk [''repo'', ''data'', ''ucd''] example_archive = (None, fetched_disk)"
  by (simp add: example_archive_def extract_member_def put_member_def example_arcnames
      is_dir_def endswith_sep_def sep_def Let_def fs_exists_def fs_isdir_def node_at_def
      write_file_def mkdir_def parent_errno_def made_disk_def example_disk_def fetched_disk_def)

lemma example_urlopen_200:
  "urlopen (network (example_env (Reply 200 b))) ucd_url = Inr \<lparr>status = 200, body = b\<rparr>"
  by (simp add: urlopen_def example_env_def)

lemma example_run:
  "process_ucd (example_env (Reply 200 ''PK-ucd'')) example_world =
     (Returned,
      \<lparr>disk = fetched_disk,
       trace = [Print [], MakeDirs [''repo'', ''data'', ''ucd''], Print downloading_message,
                UrlOpen ucd_url, Read 6, Print (downloaded_message ''PK-ucd''), ZipOpen ''PK-ucd'',
                ExtractAll [''repo'', ''data'', ''ucd''], Print extracted_message]\<rparr>)"
proof -
  let ?env = "example_env (Reply 200 ''PK-ucd'')"
  have s: "\<not> fs_isfile (disk example_world) (sentinel_file ?env)"
    by (simp add: example_sentinel_file example_world_def example_disk_def fs_isfile_def node_at_def)
  have m: "makedirs True (disk (emit (Print []) example_world)) (output_dir ?env) = (None, made_disk)"
    by (simp add: example_output_dir example_world_def emit_def example_makedirs)
  have d: "decoder ?env (body \<lparr>status = 200, body = ''PK-ucd''\<rparr>) = Some example_archive"
    by (simp add: example_env_def example_decoder_def)
  let ?w3 = "(emit (Print []) example_world)\<lparr>disk := made_disk,
      trace := trace (emit (Print []) example_world) @
        [MakeDirs (output_dir ?env), Print downloading_message, UrlOpen ucd_url]\<rparr>"
  have e: "extractall (disk ?w3) (output_dir ?env) example_archive = (None, fetched_disk)"
    by (simp add: example_output_dir example_extractall)
  have "process_ucd ?env example_world = download ?env (emit (Print []) example_world)"
    using s by (rule process_ucd_download)
  also have "\<dots> = unpack ?env \<lparr>status = 200, body = ''PK-ucd''\<rparr> ?w3"
    using m example_urlopen_200 by (rule download_200) simp
  also note unpack_extracts [OF d e]
  finally show ?thesis
    by (simp add: emit_def example_world_def example_output_dir)
qed

lemma fetched_sentinel: "fs_isfile fetched_disk [''repo'', ''data'', ''ucd'', ''Index.txt'']"
  by (simp add: fetched_disk_def fs_isfile_def node_at_def)

lemma example_not_fetched:
  "\<not> fs_isfile (disk example_world) (sentinel_file (example_env r))"
  by (simp add: example_sentinel_file example_world_def example_disk_def fs_isfile_def node_at_def)

lemma example_makedirs_world:
  "makedirs True (disk (emit (Print []) example_world)) (output_dir (example_env r)) = (None, made_disk)"
  by (simp add: example_output_dir example_world_def emit_def example_makedirs)

lemma example_makedirs_start:
  "makedirs True (disk example_world) (output_dir (example_env r)) = (None, made_disk)"
  by (simp add: example_output_dir example_world_def example_makedirs)

lemma blocked_makedirs:
  "makedirs True blocked_disk [''repo'', ''data'', ''ucd''] = (None, blocked_disk)"
  by (rule makedirs_existing)
    (simp_all add: blocked_disk_def made_disk_def fs_isdir_def fs_exists_def node_at_def)

lemma blocked_extractall:
  "extractall blocked_disk [''repo'', ''data'', ''ucd''] [\<lparr>filename = ''ReadMe.txt'', content = ''read''\<rparr>]
     = (None, blocked_disk([''repo'', ''data'', ''ucd'', ''ReadMe.txt''] \<mapsto> File ''read''))"
  by (simp add: extract_member_def put_member_def example_arcnames
      is_dir_def endswith_sep_def sep_def Let_def fs_exists_def fs_isdir_def node_at_def
      write_file_def mkdir_def parent_errno_def blocked_disk_def made_disk_def example_disk_def)

lemma example_no_file_on_the_way:
  "\<not> fs_isfile example_disk (take n [''repo'', ''data'', ''ucd''])"
proof -
  have "take n [''repo'', ''data'', ''ucd''] \<in>
      {[], [''repo''], [''repo'', ''data''], [''repo'', ''data'', ''ucd'']}"
    by (cases n rule: nat.exhaust; simp; cases "n - 1"; simp; cases "n - 2"; simp)
  then show ?thesis
    by (auto simp: example_disk_def fs_isfile_def node_at_def)
qed

lemma readme_extractall:
  "extractall made_disk [''repo'', ''data'', ''ucd''] [\<lparr>filename = ''ReadMe.txt'', content = ''read''\<rparr>]
     = (None, made_disk([''repo'', ''data'', ''ucd'', ''ReadMe.txt''] \<mapsto> File ''read''))"
  by (simp add: extract_member_def put_member_def example_arcnames
      is_dir_def endswith_sep_def sep_def Let_def fs_exists_def fs_isdir_def node_at_def
      write_file_def mkdir_def parent_errno_def made_disk_def example_disk_def)

lemma example_run_readme:
  "process_ucd (example_env (Reply 200 ''PK-readme'')) example_world =
     (Returned,
      \<lparr>disk = made_disk([''repo'', ''data'', ''ucd'', ''ReadMe.txt''] \<mapsto> File ''read''),
       trace = [Print [], MakeDirs [''repo'', ''data'', ''ucd''], Print downloading_message,
                UrlOpen ucd_url, Read 9, Print (downloaded_message ''PK-readme''),
                ZipOpen ''PK-readme'', ExtractAll [''repo'', ''data'', ''ucd''],
                Print extracted_message]\<rparr>)"
proof -
  let ?env = "example_env (Reply 200 ''PK-readme'')"
  let ?ms = "[\<lparr>filename = ''ReadMe.txt'', content = ''read''\<rparr>]"
  have d: "decoder ?env (body \<lparr>status = 200, body = ''PK-readme''\<rparr>) = Some ?ms"
    by (simp add: example_env_def example_decoder_def)
  let ?w3 = "(emit (Print []) example_world)\<lparr>disk := made_disk,
      trace := trace (emit (Print []) example_world) @
        [MakeDirs (output_dir ?env), Print downloading_message, UrlOpen ucd_url]\<rparr>"
  have e: "extractall (disk ?w3) (output_dir ?env) ?ms
      = (None, made_disk([''repo'', ''data'', ''ucd'', ''ReadMe.txt''] \<mapsto> File ''read''))"
    by (simp add: example_output_dir readme_extractall del: extractall.simps)
  have "process_ucd ?env example_world = download ?env (emit (Print []) example_world)"
    using example_not_fetched by (rule process_ucd_download)
  also have "\<dots> = unpack ?env \<lparr>status = 200, body = ''PK-readme''\<rparr> ?w3"
    using example_makedirs_world example_urlopen_200 by (rule download_200) simp
  also note unpack_extracts [OF d e]
  finally show ?thesis
    by (simp add: emit_def example_world_def example_output_dir)
qed







subsection \<open>The skip (claim C1)\<close>

text \<open>
  Claim C1. Whenever a regular file \<open>Index.txt\<close> is directly inside the output
  directory, \<open>process_ucd\<close> prints the empty line and the skip message and returns:
  the filesystem is the one it started from, no URL is opened, and nothing else is printed.
\<close>

theorem sentinel_present_is_noop:
  assumes "fs_isfile (disk w) (sentinel_file env)"
  shows "process_ucd env w = (Returned, w\<lparr>trace := trace w @ [Print [], Print skip_message]\<rparr>)
       \<and> disk (snd (process_ucd env w)) = disk w
       \<and> requests (snd (process_ucd env w)) = requests w
       \<and> console (snd (process_ucd env w)) = console w @ [[], skip_message]"
  by (simp add: process_ucd_skip [OF assms] requests_def console_def)

theorem sentinel_present_is_noop_witness:
  "fs_isfile (disk fetched_world) (sentinel_file (example_env NoReply))
   \<and> process_ucd (example_env NoReply) fetched_world =
       (Returned, \<lparr>disk = fetched_disk, trace = [Print [], Print skip_message]\<rparr>)
   \<and> requests (snd (process_ucd (example_env NoReply) fetched_world)) = []"
proof -
  have h: "fs_isfile (disk fetched_world) (sentinel_file (example_env NoReply))"
    by (simp add: fetched_world_def example_sentinel_file fetched_sentinel)
  from sentinel_present_is_noop [OF h] h show ?thesis
    by (simp add: fetched_world_def requests_def)
qed

subsection \<open>A status other than 200 (claim C2)\<close>

text \<open>
  Claim C2 says that for every HTTP response whose status is not 200 the fetcher prints
  the failure message with the status code and returns normally. The script tests
  \<open>response.status != 200\<close> on the object \<open>urlopen\<close> returns, and \<open>urlopen\<close>
  returns only for a status from 200 to 299. When the server answers 404 in the example
  checkout, \<open>process_ucd\<close> ends with \<open>HTTPError 404\<close> raised out of \<open>urlopen\<close>:
  the output directory has been made, the message about downloading printed and the URL
  opened, and the failure message is never printed.
\<close>

theorem status_404_raises:
  "process_ucd (example_env (Reply 404 ''Not Found'')) example_world =
     (Raised (HTTPError 404),
      \<lparr>disk = made_disk,
       trace = [Print [], MakeDirs [''repo'', ''data'', ''ucd''], Print downloading_message,
                UrlOpen ucd_url]\<rparr>)
   \<and> Print (failed_message 404) \<notin> set (trace (snd (process_ucd (example_env (Reply 404 ''Not Found'')) example_world)))"
proof -
  have n: "network (example_env (Reply 404 ''Not Found'')) ucd_url = Reply 404 ''Not Found''"
    by (simp add: example_env_def)
  have c: "\<not> (200 \<le> (404::int) \<and> (404::int) < 300)" by simp
  from error_status_raises [OF example_not_fetched example_makedirs_start n c]
  show ?thesis
    by (simp add: example_world_def example_output_dir failed_message_def downloading_message_def)
qed

subsection \<open>Faults that are not caught (claim C3)\<close>

text \<open>
  Claim C3. Once the request is made (the sentinel is absent and the output directory could
  be made), every exception \<open>urlopen\<close> raises and every exception opening the body
  as an archive raises leaves \<open>process_ucd\<close>, and \<open>main\<close>, as that exception.
  \<open>process_ucd\<close> returns normally only when \<open>urlopen\<close> returned a response and
  either its status was not 200 or the archive opened and was extracted without an error:
  the test of the status is the only failure it handles.
\<close>

theorem faults_propagate:
  assumes "\<not> fs_isfile (disk w) (sentinel_file env)"
    and "makedirs True (disk w) (output_dir env) = (None, fs1)"
  shows "(\<forall>e. urlopen (network env) ucd_url = Inl e \<longrightarrow>
            fst (process_ucd env w) = Raised e \<and> fst (main env w) = Raised e)
       \<and> (\<forall>resp e. urlopen (network env) ucd_url = Inr resp \<and> status resp = 200 \<and>
              ZipFile (decoder env) (body resp) = Inl e \<longrightarrow>
            fst (process_ucd env w) = Raised e \<and> fst (main env w) = Raised e)
       \<and> (fst (process_ucd env w) = Returned \<longrightarrow>
            (\<exists>resp. urlopen (network env) ucd_url = Inr resp \<and>
               (status resp \<noteq> 200 \<or>
                (\<exists>ms. ZipFile (decoder env) (body resp) = Inr ms \<and>
                      fst (extractall fs1 (output_dir env) ms) = None))))"
proof -
  have m: "makedirs True (disk (emit (Print []) w)) (output_dir env) = (None, fs1)"
    using assms(2) by (simp add: emit_def)
  note p = process_ucd_download [OF assms(1)]
  have a: "fst (process_ucd env w) = Raised e \<and> fst (main env w) = Raised e"
    if "urlopen (network env) ucd_url = Inl e" for e
    by (simp add: main_def p download_urlopen_fails [OF m that])
  have b: "fst (process_ucd env w) = Raised e \<and> fst (main env w) = Raised e"
    if "urlopen (network env) ucd_url = Inr resp" "status resp = 200"
      "ZipFile (decoder env) (body resp) = Inl e" for resp e
  proof -
    from that(3) have d: "decoder env (body resp) = None" and e: "e = BadZipFile"
      by (auto simp: ZipFile_def split: option.splits)
    show ?thesis
      by (simp add: main_def p download_200 [OF m that(1,2)] unpack_bad_zip [OF d] e)
  qed
  have c: "\<exists>resp. urlopen (network env) ucd_url = Inr resp \<and>
               (status resp \<noteq> 200 \<or>
                (\<exists>ms. ZipFile (decoder env) (body resp) = Inr ms \<and>
                      fst (extractall fs1 (output_dir env) ms) = None))"
    if r: "fst (process_ucd env w) = Returned"
  proof (cases "urlopen (network env) ucd_url")
    case (Inl e)
    from a [OF Inl] r show ?thesis by simp
  next
    case (Inr resp)
    show ?thesis
    proof (cases "status resp = 200")
      case False
      with Inr show ?thesis by blast
    next
      case True
      show ?thesis
      proof (cases "decoder env (body resp)")
        case None
        then have "ZipFile (decoder env) (body resp) = Inl BadZipFile" by (simp add: ZipFile_def)
        from b [OF Inr True this] r show ?thesis by simp
      next
        case (Some ms)
        let ?w3 = "(emit (Print []) w)\<lparr>disk := fs1, trace := trace (emit (Print []) w) @
           [MakeDirs (output_dir env), Print downloading_message, UrlOpen ucd_url]\<rparr>"
        obtain r2 fs2 where x: "extractall (disk ?w3) (output_dir env) ms = (r2, fs2)"
          by (cases "extractall (disk ?w3) (output_dir env) ms")
        have "r2 = None"
        proof (cases r2)
          case None
          then show ?thesis .
        next
          case (Some e)
          with x have "extractall (disk ?w3) (output_dir env) ms = (Some e, fs2)" by simp
          from unpack_extract_fails [OF \<open>decoder env (body resp) = Some ms\<close> this] r
          show ?thesis by (simp add: p download_200 [OF m Inr True])
        qed
        with x have "fst (extractall fs1 (output_dir env) ms) = None" by simp
        moreover from Some have "ZipFile (decoder env) (body resp) = Inr ms"
          by (simp add: ZipFile_def)
        ultimately show ?thesis using Inr by blast
      qed
    qed
  qed
  from a b c show ?thesis by blast
qed

theorem faults_propagate_witness:
  "\<not> fs_isfile (disk example_world) (sentinel_file (example_env NoReply))
   \<and> makedirs True (disk example_world) (output_dir (example_env NoReply)) = (None, made_disk)
   \<and> urlopen (network (example_env NoReply)) ucd_url = Inl URLError
   \<and> fst (process_ucd (example_env NoReply) example_world) = Raised URLError
   \<and> fst (main (example_env NoReply) example_world) = Raised URLError
   \<and> ZipFile (decoder (example_env (Reply 200 ''junk''))) ''junk'' = Inl BadZipFile
   \<and> fst (main (example_env (Reply 200 ''junk'')) example_world) = Raised BadZipFile"
proof -
  have u: "urlopen (network (example_env NoReply)) ucd_url = Inl URLError"
    by (simp add: urlopen_def example_env_def)
  have z: "ZipFile (decoder (example_env (Reply 200 ''junk''))) (body \<lparr>status = 200, body = ''junk''\<rparr>) = Inl BadZipFile"
    by (simp add: ZipFile_def example_env_def example_decoder_def)
  note t1 = faults_propagate [OF example_not_fetched example_makedirs_start, of NoReply]
  note t2 = faults_propagate [OF example_not_fetched example_makedirs_start, of "Reply 200 ''junk''"]
  from t1 u have "fst (process_ucd (example_env NoReply) example_world) = Raised URLError
      \<and> fst (main (example_env NoReply) example_world) = Raised URLError" by blast
  moreover from t2 example_urlopen_200 [of "''junk''"] z
  have "fst (main (example_env (Reply 200 ''junk'')) example_world) = Raised BadZipFile"
    by (metis response.select_convs(1))
  ultimately show ?thesis
    using u z example_not_fetched [of NoReply] example_makedirs_start [of NoReply] by simp
qed

subsection \<open>The output directory (claim C4)\<close>

text \<open>
  Claim C4. Whatever the working directory, the output directory that the script computes
  from \<open>__file__\<close> is the location two levels above the script file (the parent of
  the directory holding it), then \<open>data/ucd\<close>. The script file has a name of its own
  (its last component is not empty, \<open>.\<close> or \<open>..\<close>). When \<open>__file__\<close> is absolute, as
  it is from Python 3.9 on, the location is the same from every working directory; when it is
  relative, it is relative to the same working directory the script was found from.
\<close>

theorem data_dir_two_levels_above_script:
  assumes "basename file \<notin> {[], ''.'', ''..''}"
  shows "locate cwd (data_dir file) = butlast (butlast (locate cwd file)) @ [''data'', ''ucd'']
       \<and> (startswith_sep file \<longrightarrow> locate cwd (data_dir file) = locate cwd' (data_dir file))"
proof -
  have two: "locate d (data_dir file) = butlast (butlast (locate d file)) @ [''data'', ''ucd'']"
    for d
    using locate_file [OF assms, of d] by (simp add: locate_data_dir)
  have "locate cwd (data_dir file) = locate cwd' (data_dir file)" if "startswith_sep file"
    using two [of cwd] two [of cwd'] locate_absolute [OF that, of cwd cwd'] by simp
  with two [of cwd] show ?thesis by simp
qed

theorem data_dir_two_levels_above_script_witness:
  "basename example_script \<notin> {[], ''.'', ''..''}
   \<and> startswith_sep example_script
   \<and> locate [''home''] (data_dir example_script) = [''repo'', ''data'', ''ucd'']
   \<and> locate [''home''] (data_dir example_script) = locate [''tmp'', ''x''] (data_dir example_script)"
proof -
  have b: "basename example_script \<notin> {[], ''.'', ''..''}"
    by (simp add: example_basename)
  have a: "startswith_sep example_script"
    by (simp add: example_script_def startswith_sep_def sep_def)
  note t = data_dir_two_levels_above_script [OF b, of "[''home'']" "[''tmp'', ''x'']"]
  from t have "locate [''home''] (data_dir example_script) = [''repo'', ''data'', ''ucd'']"
    by (simp add: example_script_location)
  moreover from t a
  have "locate [''home''] (data_dir example_script) = locate [''tmp'', ''x''] (data_dir example_script)"
    by blast
  ultimately show ?thesis using a b by blast
qed

subsection \<open>What extraction leaves (claim C5)\<close>



subsection \<open>The body in memory (claim C6)\<close>

text \<open>
  Claim C6. With a response of status 200, the calls \<open>process_ucd\<close> makes are, in
  order: the directory is made, the URL opened, the body read (all of it, in one call),
  the message with the number of bytes printed, the archive opened on those same bytes, and
  only then anything extracted. The number printed is the length of the body in decimal.
  Nothing touches the disk between making the directory and extracting: when the body is
  not an archive the disk is the one \<open>makedirs\<close> left, and when it is, the disk is
  what \<open>extractall\<close> makes of that one.
\<close>

theorem body_read_whole_then_unzipped_from_memory:
  assumes "\<not> fs_isfile (disk w) (sentinel_file env)"
    and "makedirs True (disk w) (output_dir env) = (None, fs1)"
    and "urlopen (network env) ucd_url = Inr resp" and "status resp = 200"
  shows "trace (snd (process_ucd env w)) =
           trace w @
           [Print [], MakeDirs (output_dir env), Print downloading_message, UrlOpen ucd_url,
            Read (length (body resp)), Print (downloaded_message (body resp)),
            ZipOpen (body resp)] @
           (case decoder env (body resp) of
              None \<Rightarrow> []
            | Some ms \<Rightarrow>
                ExtractAll (output_dir env) #
                (case fst (extractall fs1 (output_dir env) ms) of
                   None \<Rightarrow> [Print extracted_message]
                 | Some e \<Rightarrow> []))
       \<and> downloaded_message (body resp) =
           ''=> Downloaded '' @ str_nat (length (body resp)) @ '' bytes, extracting...''
       \<and> decimal (str_nat (length (body resp))) = length (body resp)
       \<and> (decoder env (body resp) = None \<longrightarrow>
            fst (process_ucd env w) = Raised BadZipFile \<and> disk (snd (process_ucd env w)) = fs1)
       \<and> (\<forall>ms. decoder env (body resp) = Some ms \<longrightarrow>
            disk (snd (process_ucd env w)) = snd (extractall fs1 (output_dir env) ms))"
proof -
  have m: "makedirs True (disk (emit (Print []) w)) (output_dir env) = (None, fs1)"
    using assms(2) by (simp add: emit_def)
  let ?w3 = "(emit (Print []) w)\<lparr>disk := fs1, trace := trace (emit (Print []) w) @
           [MakeDirs (output_dir env), Print downloading_message, UrlOpen ucd_url]\<rparr>"
  have p: "process_ucd env w = unpack env resp ?w3"
    by (simp add: process_ucd_download [OF assms(1)] download_200 [OF m assms(3,4)])
  have msg: "downloaded_message (body resp) =
           ''=> Downloaded '' @ str_nat (length (body resp)) @ '' bytes, extracting...''"
    by (simp add: downloaded_message_def fmt_d_def)
  show ?thesis
  proof (cases "decoder env (body resp)")
    case None
    from unpack_bad_zip [OF None, of ?w3] show ?thesis
      by (simp add: p None msg decimal_str_nat emit_def)
  next
    case (Some ms)
    obtain r2 fs2 where x: "extractall fs1 (output_dir env) ms = (r2, fs2)"
      by (cases "extractall fs1 (output_dir env) ms")
    then have x': "extractall (disk ?w3) (output_dir env) ms = (r2, fs2)" by simp
    show ?thesis
    proof (cases r2)
      case None
      with x' have "extractall (disk ?w3) (output_dir env) ms = (None, fs2)" by simp
      from unpack_extracts [OF Some this] show ?thesis
        by (simp add: p Some msg decimal_str_nat emit_def x None)
    next
      case (Some e)
      with x' have "extractall (disk ?w3) (output_dir env) ms = (Some e, fs2)" by simp
      from unpack_extract_fails [OF \<open>decoder env (body resp) = Some ms\<close> this] show ?thesis
        by (simp add: p \<open>decoder env (body resp) = Some ms\<close> msg decimal_str_nat emit_def x Some)
    qed
  qed
qed

theorem body_read_whole_then_unzipped_from_memory_witness:
  "\<not> fs_isfile (disk example_world) (sentinel_file (example_env (Reply 200 ''PK-ucd'')))
   \<and> makedirs True (disk example_world) (output_dir (example_env (Reply 200 ''PK-ucd''))) = (None, made_disk)
   \<and> urlopen (network (example_env (Reply 200 ''PK-ucd''))) ucd_url = Inr \<lparr>status = 200, body = ''PK-ucd''\<rparr>
   \<and> trace (snd (process_ucd (example_env (Reply 200 ''PK-ucd'')) example_world)) =
       [Print [], MakeDirs [''repo'', ''data'', ''ucd''], Print downloading_message,
        UrlOpen ucd_url, Read 6, Print (downloaded_message ''PK-ucd''), ZipOpen ''PK-ucd'',
        ExtractAll [''repo'', ''data'', ''ucd''], Print extracted_message]
   \<and> downloaded_message ''PK-ucd'' = ''=> Downloaded 6 bytes, extracting...''
   \<and> disk (snd (process_ucd (example_env (Reply 200 ''PK-ucd'')) example_world)) = fetched_disk"
proof -
  let ?env = "example_env (Reply 200 ''PK-ucd'')"
  have s: "status \<lparr>status = 200, body = ''PK-ucd''\<rparr> = 200" by simp
  have d: "decoder ?env ''PK-ucd'' = Some example_archive"
    by (simp add: example_env_def example_decoder_def)
  note t = body_read_whole_then_unzipped_from_memory
    [OF example_not_fetched [of "Reply 200 ''PK-ucd''"]
        example_makedirs_start [of "Reply 200 ''PK-ucd''"] example_urlopen_200 [of "''PK-ucd''"] s]
  from t have "trace (snd (process_ucd ?env example_world)) =
       [Print [], MakeDirs [''repo'', ''data'', ''ucd''], Print downloading_message,
        UrlOpen ucd_url, Read 6, Print (downloaded_message ''PK-ucd''), ZipOpen ''PK-ucd'',
        ExtractAll [''repo'', ''data'', ''ucd''], Print extracted_message]"
    by (simp add: d example_output_dir example_extractall example_world_def)
  moreover have "downloaded_message ''PK-ucd'' = ''=> Downloaded 6 bytes, extracting...''"
    using t by (simp add: str_nat.simps)
  moreover from t have "disk (snd (process_ucd ?env example_world)) = fetched_disk"
    by (simp add: d example_output_dir example_extractall)
  ultimately show ?thesis
    using example_not_fetched [of "Reply 200 ''PK-ucd''"]
      example_makedirs_start [of "Reply 200 ''PK-ucd''"] example_urlopen_200 [of "''PK-ucd''"]
    by simp
qed

subsection \<open>Making the output directory (claim C7)\<close>

text \<open>
  Claim C7. With the sentinel absent, on a filesystem that is a tree, the first call of
  \<open>process_ucd\<close> after its first \<open>print\<close> is \<open>makedirs\<close> on the output
  directory. If that raises, the exception leaves \<open>process_ucd\<close> and no URL is opened.
  If no regular file is in the way (neither the directory nor one of its ancestors is a
  regular file) it succeeds: afterwards the directory and every ancestor are directories,
  only missing ones among them were created, and a directory that was there already is no
  error and leaves the disk as it was. The URL is opened after that, and the extraction
  starts from the disk \<open>makedirs\<close> left.
\<close>

theorem output_directory_made_before_request:
  assumes "\<not> fs_isfile (disk w) (sentinel_file env)" and "tree (disk w)"
  shows "(\<exists>rest. trace (snd (process_ucd env w)) =
            trace w @ [Print [], MakeDirs (output_dir env)] @ rest)
       \<and> (\<forall>e fs'. makedirs True (disk w) (output_dir env) = (Some e, fs') \<longrightarrow>
            fst (process_ucd env w) = Raised (OSError e)
          \<and> requests (snd (process_ucd env w)) = requests w)
       \<and> ((\<forall>n. \<not> fs_isfile (disk w) (take n (output_dir env))) \<longrightarrow>
            (\<exists>fs1 rest.
               makedirs True (disk w) (output_dir env) = (None, fs1)
             \<and> (\<forall>n. fs_isdir fs1 (take n (output_dir env)))
             \<and> (\<forall>loc. fs1 loc = disk w loc \<or>
                   (disk w loc = None \<and> fs1 loc = Some Dir \<and> (\<exists>n. loc = take n (output_dir env))))
             \<and> (fs_isdir (disk w) (output_dir env) \<longrightarrow> fs1 = disk w)
             \<and> trace (snd (process_ucd env w)) =
                 trace w @ [Print [], MakeDirs (output_dir env), Print downloading_message,
                            UrlOpen ucd_url] @ rest
             \<and> requests \<lparr>disk = fs1, trace = rest\<rparr> = []
             \<and> (\<forall>resp ms. urlopen (network env) ucd_url = Inr resp \<and> status resp = 200 \<and>
                   decoder env (body resp) = Some ms \<longrightarrow>
                   disk (snd (process_ucd env w)) = snd (extractall fs1 (output_dir env) ms))))"
proof -
  let ?w1 = "emit (Print []) w"
  let ?dir = "output_dir env"
  note p = process_ucd_download [OF assms(1)]
  have a: "\<exists>rest. trace (snd (process_ucd env w)) = trace w @ [Print [], MakeDirs ?dir] @ rest"
    using download_first_call [of env ?w1] by (simp add: p emit_def)
  have b: "fst (process_ucd env w) = Raised (OSError e)
          \<and> requests (snd (process_ucd env w)) = requests w"
    if "makedirs True (disk w) ?dir = (Some e, fs')" for e fs'
  proof -
    from that have "makedirs True (disk ?w1) ?dir = (Some e, fs')" by (simp add: emit_def)
    from download_makedirs_fails [OF this] show ?thesis
      by (simp add: p emit_def requests_def)
  qed
  have c: "\<exists>fs1 rest.
               makedirs True (disk w) ?dir = (None, fs1)
             \<and> (\<forall>n. fs_isdir fs1 (take n ?dir))
             \<and> (\<forall>loc. fs1 loc = disk w loc \<or>
                   (disk w loc = None \<and> fs1 loc = Some Dir \<and> (\<exists>n. loc = take n ?dir)))
             \<and> (fs_isdir (disk w) ?dir \<longrightarrow> fs1 = disk w)
             \<and> trace (snd (process_ucd env w)) =
                 trace w @ [Print [], MakeDirs ?dir, Print downloading_message,
                            UrlOpen ucd_url] @ rest
             \<and> requests \<lparr>disk = fs1, trace = rest\<rparr> = []
             \<and> (\<forall>resp ms. urlopen (network env) ucd_url = Inr resp \<and> status resp = 200 \<and>
                   decoder env (body resp) = Some ms \<longrightarrow>
                   disk (snd (process_ucd env w)) = snd (extractall fs1 ?dir ms))"
    if nofile: "\<forall>n. \<not> fs_isfile (disk w) (take n ?dir)"
  proof -
    from makedirs_creates [OF assms(2) nofile] obtain fs1 where
      m: "makedirs True (disk w) ?dir = (None, fs1)"
      and d: "\<forall>n. fs_isdir fs1 (take n ?dir)"
      and f: "\<forall>loc. fs1 loc = disk w loc \<or>
                   (disk w loc = None \<and> fs1 loc = Some Dir \<and> (\<exists>n. loc = take n ?dir))"
      by blast
    have same: "fs1 = disk w" if "fs_isdir (disk w) ?dir"
    proof -
      from tree_parent [OF assms(2) that] have "fs_exists (disk w) (butlast ?dir)"
        by (simp add: fs_isdir_def fs_exists_def)
      with that have "makedirs True (disk w) ?dir = (None, disk w)" by (rule makedirs_existing)
      with m show ?thesis by simp
    qed
    from m have m1: "makedirs True (disk ?w1) ?dir = (None, fs1)" by (simp add: emit_def)
    from download_started [OF m1, of fs1] obtain rest where
      t: "trace (snd (download env ?w1)) =
           trace ?w1 @ [MakeDirs ?dir, Print downloading_message, UrlOpen ucd_url] @ rest"
      and r: "requests \<lparr>disk = fs1, trace = rest\<rparr> = []" by blast
    from t have t': "trace (snd (process_ucd env w)) =
                 trace w @ [Print [], MakeDirs ?dir, Print downloading_message,
                            UrlOpen ucd_url] @ rest"
      by (simp add: p emit_def)
    have x: "disk (snd (process_ucd env w)) = snd (extractall fs1 ?dir ms)"
      if "urlopen (network env) ucd_url = Inr resp" "status resp = 200"
        "decoder env (body resp) = Some ms" for resp ms
      using download_extracts [OF m1 that] by (simp add: p)
    from m d f same t' r x show ?thesis by blast
  qed
  from a b c show ?thesis by blast
qed

theorem output_directory_made_before_request_witness:
  "\<not> fs_isfile (disk example_world) (sentinel_file (example_env (Reply 200 ''PK-ucd'')))
   \<and> tree (disk example_world)
   \<and> (\<forall>n. \<not> fs_isfile (disk example_world) (take n (output_dir (example_env (Reply 200 ''PK-ucd'')))))
   \<and> makedirs True (disk example_world) (output_dir (example_env (Reply 200 ''PK-ucd''))) = (None, made_disk)
   \<and> fs_isdir made_disk [''repo'', ''data'']
   \<and> fs_isdir made_disk [''repo'', ''data'', ''ucd'']
   \<and> take 4 (trace (snd (process_ucd (example_env (Reply 200 ''PK-ucd'')) example_world))) =
       [Print [], MakeDirs [''repo'', ''data'', ''ucd''], Print downloading_message, UrlOpen ucd_url]"
proof -
  let ?env = "example_env (Reply 200 ''PK-ucd'')"
  have tr: "tree (disk example_world)" by (simp add: example_world_def example_tree)
  have nf: "\<forall>n. \<not> fs_isfile (disk example_world) (take n (output_dir ?env))"
    by (simp add: example_world_def example_output_dir example_no_file_on_the_way)
  from output_directory_made_before_request [OF example_not_fetched tr, of "Reply 200 ''PK-ucd''"] nf
  obtain fs1 rest where m: "makedirs True (disk example_world) (output_dir ?env) = (None, fs1)"
    and d: "\<forall>n. fs_isdir fs1 (take n (output_dir ?env))"
    and t: "trace (snd (process_ucd ?env example_world)) =
                 trace example_world @ [Print [], MakeDirs (output_dir ?env), Print downloading_message,
                            UrlOpen ucd_url] @ rest"
    by blast
  from m have fs1: "fs1 = made_disk" by (simp add: example_makedirs_start)
  from d have "fs_isdir fs1 (take 2 (output_dir ?env))" "fs_isdir fs1 (take 3 (output_dir ?env))"
    by blast+
  then have "fs_isdir made_disk [''repo'', ''data'']" "fs_isdir made_disk [''repo'', ''data'', ''ucd'']"
    by (simp_all add: fs1 example_output_dir)
  moreover from t have "take 4 (trace (snd (process_ucd ?env example_world))) =
       [Print [], MakeDirs [''repo'', ''data'', ''ucd''], Print downloading_message, UrlOpen ucd_url]"
    by (simp add: example_world_def example_output_dir)
  ultimately show ?thesis
    using example_not_fetched [of "Reply 200 ''PK-ucd''"] tr nf example_makedirs_start [of "Reply 200 ''PK-ucd''"]
    by blast
qed

subsection \<open>A sentinel that is not a regular file (claim C8)\<close>

text \<open>
  Claim C8. When there is no regular file at \<open>Index.txt\<close> in the output directory (in
  particular when a directory of that name is there) \<open>process_ucd\<close> does not skip. Its
  next call after the first \<open>print\<close> is \<open>makedirs\<close> on the output directory; once
  that has succeeded it opens the UCD URL; and with a response of status 200 that holds an
  archive it calls \<open>extractall\<close>, so that the disk is what \<open>extractall\<close> leaves.
\<close>

theorem sentinel_not_regular_file_downloads:
  assumes "\<not> fs_isfile (disk w) (sentinel_file env)"
  shows "(\<exists>rest. trace (snd (process_ucd env w)) =
            trace w @ [Print [], MakeDirs (output_dir env)] @ rest)
       \<and> (\<forall>fs1. makedirs True (disk w) (output_dir env) = (None, fs1) \<longrightarrow>
            requests (snd (process_ucd env w)) = requests w @ [ucd_url]
          \<and> (\<forall>resp ms. urlopen (network env) ucd_url = Inr resp \<and> status resp = 200 \<and>
                decoder env (body resp) = Some ms \<longrightarrow>
                ExtractAll (output_dir env) \<in> set (trace (snd (process_ucd env w)))
              \<and> disk (snd (process_ucd env w)) = snd (extractall fs1 (output_dir env) ms)))"
proof -
  let ?w1 = "emit (Print []) w"
  note p = process_ucd_download [OF assms]
  have a: "\<exists>rest. trace (snd (process_ucd env w)) =
            trace w @ [Print [], MakeDirs (output_dir env)] @ rest"
    using download_first_call [of env ?w1] by (simp add: p emit_def)
  have b: "requests (snd (process_ucd env w)) = requests w @ [ucd_url]"
    if "makedirs True (disk w) (output_dir env) = (None, fs1)" for fs1
  proof -
    from that have "makedirs True (disk ?w1) (output_dir env) = (None, fs1)" by (simp add: emit_def)
    from download_requests [OF this] show ?thesis by (simp add: p) (simp add: emit_def requests_def)
  qed
  have c: "ExtractAll (output_dir env) \<in> set (trace (snd (process_ucd env w)))
              \<and> disk (snd (process_ucd env w)) = snd (extractall fs1 (output_dir env) ms)"
    if "makedirs True (disk w) (output_dir env) = (None, fs1)"
      "urlopen (network env) ucd_url = Inr resp" "status resp = 200"
      "decoder env (body resp) = Some ms" for fs1 resp ms
  proof -
    from that(1) have "makedirs True (disk ?w1) (output_dir env) = (None, fs1)"
      by (simp add: emit_def)
    from download_extracts [OF this that(2,3,4)] show ?thesis
      by (auto simp: p dest: in_set_dropD)
  qed
  from a b c show ?thesis by blast
qed

theorem sentinel_not_regular_file_downloads_witness:
  "fs_isdir (disk blocked_world) (sentinel_file (example_env (Reply 200 ''PK-readme'')))
   \<and> \<not> fs_isfile (disk blocked_world) (sentinel_file (example_env (Reply 200 ''PK-readme'')))
   \<and> makedirs True (disk blocked_world) (output_dir (example_env (Reply 200 ''PK-readme''))) = (None, blocked_disk)
   \<and> requests (snd (process_ucd (example_env (Reply 200 ''PK-readme'')) blocked_world)) = [ucd_url]
   \<and> ExtractAll [''repo'', ''data'', ''ucd'']
        \<in> set (trace (snd (process_ucd (example_env (Reply 200 ''PK-readme'')) blocked_world)))
   \<and> disk (snd (process_ucd (example_env (Reply 200 ''PK-readme'')) blocked_world))
        [''repo'', ''data'', ''ucd'', ''ReadMe.txt''] = Some (File ''read'')"
proof -
  let ?env = "example_env (Reply 200 ''PK-readme'')"
  have dir: "fs_isdir (disk blocked_world) (sentinel_file ?env)"
    by (simp add: blocked_world_def blocked_disk_def example_sentinel_file fs_isdir_def node_at_def)
  have nf: "\<not> fs_isfile (disk blocked_world) (sentinel_file ?env)"
    by (simp add: blocked_world_def blocked_disk_def example_sentinel_file fs_isfile_def node_at_def)
  have m: "makedirs True (disk blocked_world) (output_dir ?env) = (None, blocked_disk)"
    by (simp add: blocked_world_def example_output_dir blocked_makedirs)
  have u: "urlopen (network ?env) ucd_url = Inr \<lparr>status = 200, body = ''PK-readme''\<rparr>"
    by (rule example_urlopen_200)
  have d: "decoder ?env (body \<lparr>status = 200, body = ''PK-readme''\<rparr>)
      = Some [\<lparr>filename = ''ReadMe.txt'', content = ''read''\<rparr>]"
    by (simp add: example_env_def example_decoder_def)
  have r: "requests blocked_world = []" by (simp add: blocked_world_def requests_def)
  note t = sentinel_not_regular_file_downloads [OF nf]
  from t m have "requests (snd (process_ucd ?env blocked_world)) = requests blocked_world @ [ucd_url]"
    by blast
  moreover from t m u d
  have "ExtractAll (output_dir ?env) \<in> set (trace (snd (process_ucd ?env blocked_world)))
      \<and> disk (snd (process_ucd ?env blocked_world)) =
        snd (extractall blocked_disk (output_dir ?env) [\<lparr>filename = ''ReadMe.txt'', content = ''read''\<rparr>])"
    by (metis response.select_convs(1))
  ultimately show ?thesis using dir nf m r
    by (simp add: example_output_dir blocked_extractall del: extractall.simps)
qed

subsection \<open>Where the sentinel comes from (claim C9)\<close>

text \<open>
  Claim C9. \<open>process_ucd\<close> never writes \<open>Index.txt\<close> itself. Starting without the
  sentinel, a regular file is at its place after the run only when the response had status
  200, its body was an archive, and a file member of the archive is extracted to
  \<open>Index.txt\<close> at the top of the output directory. For a run that returns normally
  after extracting the members \<open>ms\<close>, the sentinel is there afterwards if and only if
  \<open>ms\<close> has such a member; then the next run skips (the run is a fixed point), and
  otherwise the next run opens the URL and extracts again.
\<close>

theorem sentinel_appears_only_by_extraction:
  assumes "\<not> fs_isfile (disk w) (sentinel_file env)"
  shows "(fs_isfile (disk (snd (process_ucd env w))) (sentinel_file env) \<longrightarrow>
           (\<exists>resp ms. urlopen (network env) ucd_url = Inr resp \<and> status resp = 200 \<and>
              decoder env (body resp) = Some ms \<and>
              (\<exists>m\<in>set ms. \<not> is_dir m \<and> arcname_parts (filename m) = [''Index.txt''])))
       \<and> (\<forall>resp ms. fst (process_ucd env w) = Returned \<and>
              urlopen (network env) ucd_url = Inr resp \<and> status resp = 200 \<and>
              decoder env (body resp) = Some ms \<longrightarrow>
            (fs_isfile (disk (snd (process_ucd env w))) (sentinel_file env) \<longleftrightarrow>
               (\<exists>m\<in>set ms. \<not> is_dir m \<and> arcname_parts (filename m) = [''Index.txt'']))
          \<and> (fs_isfile (disk (snd (process_ucd env w))) (sentinel_file env) \<longrightarrow>
               process_ucd env (snd (process_ucd env w)) =
                 (Returned, (snd (process_ucd env w))
                    \<lparr>trace := trace (snd (process_ucd env w)) @ [Print [], Print skip_message]\<rparr>))
          \<and> (\<not> fs_isfile (disk (snd (process_ucd env w))) (sentinel_file env) \<longrightarrow>
               requests (snd (process_ucd env (snd (process_ucd env w)))) =
                 requests (snd (process_ucd env w)) @ [ucd_url]
             \<and> ExtractAll (output_dir env) \<in>
                 set (drop (length (trace (snd (process_ucd env w))))
                       (trace (snd (process_ucd env (snd (process_ucd env w))))))))"
proof -
  let ?w1 = "emit (Print []) w"
  let ?s = "sentinel_file env" and ?dir = "output_dir env"
  let ?w' = "snd (process_ucd env w)"
  note p = process_ucd_download [OF assms]
  from assms have nf1: "\<not> fs_isfile (disk ?w1) ?s" by (simp add: emit_def)
  have a: "\<exists>resp ms. urlopen (network env) ucd_url = Inr resp \<and> status resp = 200 \<and>
              decoder env (body resp) = Some ms \<and>
              (\<exists>m\<in>set ms. \<not> is_dir m \<and> arcname_parts (filename m) = [''Index.txt''])"
    if "fs_isfile (disk ?w') ?s"
    using download_sentinel_from_archive [OF nf1] that by (simp add: p)
  have b: "(fs_isfile (disk ?w') ?s \<longleftrightarrow>
               (\<exists>m\<in>set ms. \<not> is_dir m \<and> arcname_parts (filename m) = [''Index.txt'']))
          \<and> (fs_isfile (disk ?w') ?s \<longrightarrow>
               process_ucd env ?w' =
                 (Returned, ?w'\<lparr>trace := trace ?w' @ [Print [], Print skip_message]\<rparr>))
          \<and> (\<not> fs_isfile (disk ?w') ?s \<longrightarrow>
               requests (snd (process_ucd env ?w')) = requests ?w' @ [ucd_url]
             \<and> ExtractAll ?dir \<in> set (drop (length (trace ?w')) (trace (snd (process_ucd env ?w')))))"
    if r: "fst (process_ucd env w) = Returned"
      and u: "urlopen (network env) ucd_url = Inr resp" and st: "status resp = 200"
      and d: "decoder env (body resp) = Some ms" for resp ms
  proof -
    from r have "fst (download env ?w1) = Returned" by (simp add: p)
    from download_returned_made [OF this] obtain fs1
      where m1: "makedirs True (disk ?w1) ?dir = (None, fs1)" by blast
    note x = download_extracts [OF m1 u st d]
    from x r have "fst (extractall fs1 ?dir ms) = None" by (simp add: p)
    then obtain fs2 where e: "extractall fs1 ?dir ms = (None, fs2)"
      by (cases "extractall fs1 ?dir ms") simp
    with x have dw: "disk ?w' = fs2" by (simp add: p)
    have iff: "fs_isfile (disk ?w') ?s \<longleftrightarrow>
               (\<exists>m\<in>set ms. \<not> is_dir m \<and> arcname_parts (filename m) = [''Index.txt''])"
    proof
      assume "fs_isfile (disk ?w') ?s"
      from a [OF this] u d show "\<exists>m\<in>set ms. \<not> is_dir m \<and> arcname_parts (filename m) = [''Index.txt'']"
        by simp
    next
      assume "\<exists>m\<in>set ms. \<not> is_dir m \<and> arcname_parts (filename m) = [''Index.txt'']"
      then obtain m where m: "m \<in> set ms" "\<not> is_dir m" "arcname_parts (filename m) = [''Index.txt'']"
        by blast
      then have t: "target ?dir m = ?s" by (simp add: target_def sentinel_file_def)
      from extractall_members [OF e m(1)] m(2) t
      have "\<exists>c. fs2 ?s = Some (File c)" by simp
      then show "fs_isfile (disk ?w') ?s"
        by (auto simp: dw fs_isfile_def node_at_def sentinel_file_def)
    qed
    have skip: "process_ucd env ?w' =
                 (Returned, ?w'\<lparr>trace := trace ?w' @ [Print [], Print skip_message]\<rparr>)"
      if "fs_isfile (disk ?w') ?s"
      using that by (rule process_ucd_skip)
    have again: "requests (snd (process_ucd env ?w')) = requests ?w' @ [ucd_url]
             \<and> ExtractAll ?dir \<in> set (drop (length (trace ?w')) (trace (snd (process_ucd env ?w'))))"
      if n: "\<not> fs_isfile (disk ?w') ?s"
    proof -
      let ?v = "emit (Print []) ?w'"
      note q = process_ucd_download [OF n]
      from makedirs_ok_isdir [OF m1] have "fs_isdir fs1 ?dir" .
      with e have d2: "fs_isdir fs2 ?dir" by (rule extractall_dirs_kept)
      from makedirs_ok_parent [OF m1] have "fs_exists fs1 (butlast ?dir)" .
      with extractall_writes [OF e] have p2: "fs_exists fs2 (butlast ?dir)" by (rule writes_exists)
      from d2 p2 have "makedirs True fs2 ?dir = (None, fs2)" by (rule makedirs_existing)
      then have m2: "makedirs True (disk ?v) ?dir = (None, fs2)" by (simp add: emit_def dw)
      from download_requests [OF m2]
      have 1: "requests (snd (process_ucd env ?w')) = requests ?w' @ [ucd_url]"
        by (simp add: q) (simp add: emit_def requests_def)
      from download_extracts [OF m2 u st d]
      have "ExtractAll ?dir \<in> set (drop (length (trace ?v)) (trace (snd (process_ucd env ?w'))))"
        by (simp add: q)
      then have "ExtractAll ?dir \<in> set (drop 1 (drop (length (trace ?w')) (trace (snd (process_ucd env ?w')))))"
        by (simp add: emit_def)
      then have 2: "ExtractAll ?dir \<in> set (drop (length (trace ?w')) (trace (snd (process_ucd env ?w'))))"
        by (rule in_set_dropD)
      from 1 2 show ?thesis by blast
    qed
    from iff skip again show ?thesis by blast
  qed
  from a b show ?thesis by blast
qed

theorem sentinel_appears_only_by_extraction_witness:
  "\<not> fs_isfile (disk example_world) (sentinel_file (example_env (Reply 200 ''PK-ucd'')))
   \<and> fst (process_ucd (example_env (Reply 200 ''PK-ucd'')) example_world) = Returned
   \<and> fs_isfile (disk (snd (process_ucd (example_env (Reply 200 ''PK-ucd'')) example_world)))
        (sentinel_file (example_env (Reply 200 ''PK-ucd'')))
   \<and> fst (process_ucd (example_env (Reply 200 ''PK-ucd''))
        (snd (process_ucd (example_env (Reply 200 ''PK-ucd'')) example_world))) = Returned
   \<and> requests (snd (process_ucd (example_env (Reply 200 ''PK-ucd''))
        (snd (process_ucd (example_env (Reply 200 ''PK-ucd'')) example_world)))) = [ucd_url]
   \<and> fst (process_ucd (example_env (Reply 200 ''PK-readme'')) example_world) = Returned
   \<and> \<not> fs_isfile (disk (snd (process_ucd (example_env (Reply 200 ''PK-readme'')) example_world)))
        (sentinel_file (example_env (Reply 200 ''PK-readme'')))
   \<and> requests (snd (process_ucd (example_env (Reply 200 ''PK-readme''))
        (snd (process_ucd (example_env (Reply 200 ''PK-readme'')) example_world)))) = [ucd_url, ucd_url]"
proof -
  let ?e1 = "example_env (Reply 200 ''PK-ucd'')"
  let ?e2 = "example_env (Reply 200 ''PK-readme'')"
  let ?w1 = "snd (process_ucd ?e1 example_world)"
  let ?w2 = "snd (process_ucd ?e2 example_world)"
  have r1: "fst (process_ucd ?e1 example_world) = Returned" by (simp add: example_run)
  have r2: "fst (process_ucd ?e2 example_world) = Returned" by (simp add: example_run_readme)
  have q1: "requests ?w1 = [ucd_url]" by (simp add: example_run requests_def)
  have q2: "requests ?w2 = [ucd_url]" by (simp add: example_run_readme requests_def)
  have s: "status \<lparr>status = 200, body = b\<rparr> = 200" for b :: bytes by simp
  have d1: "decoder ?e1 (body \<lparr>status = 200, body = ''PK-ucd''\<rparr>) = Some example_archive"
    by (simp add: example_env_def example_decoder_def)
  have d2: "decoder ?e2 (body \<lparr>status = 200, body = ''PK-readme''\<rparr>)
      = Some [\<lparr>filename = ''ReadMe.txt'', content = ''read''\<rparr>]"
    by (simp add: example_env_def example_decoder_def)
  have has: "\<exists>m\<in>set example_archive. \<not> is_dir m \<and> arcname_parts (filename m) = [''Index.txt'']"
    by (simp add: example_archive_def example_arcnames is_dir_def endswith_sep_def sep_def)
  have hasnt: "\<not> (\<exists>m\<in>set [\<lparr>filename = ''ReadMe.txt'', content = ''read''\<rparr>].
      \<not> is_dir m \<and> arcname_parts (filename m) = [''Index.txt''])"
    by (simp add: example_arcnames)
  note t1 = sentinel_appears_only_by_extraction [OF example_not_fetched [of "Reply 200 ''PK-ucd''"]]
  note t2 = sentinel_appears_only_by_extraction [OF example_not_fetched [of "Reply 200 ''PK-readme''"]]
  from t1 r1 example_urlopen_200 [of "''PK-ucd''"] s d1 has
  have f1: "fs_isfile (disk ?w1) (sentinel_file ?e1)"
    and k1: "process_ucd ?e1 ?w1 = (Returned, ?w1\<lparr>trace := trace ?w1 @ [Print [], Print skip_message]\<rparr>)"
    by blast+
  from t2 r2 example_urlopen_200 [of "''PK-readme''"] s d2 hasnt
  have f2: "\<not> fs_isfile (disk ?w2) (sentinel_file ?e2)"
    and k2: "requests (snd (process_ucd ?e2 ?w2)) = requests ?w2 @ [ucd_url]"
    by blast+
  from k1 have "fst (process_ucd ?e1 ?w1) = Returned" by simp
  moreover from k1 q1 have "requests (snd (process_ucd ?e1 ?w1)) = [ucd_url]"
    by (simp add: requests_def)
  moreover from k2 q2 have "requests (snd (process_ucd ?e2 ?w2)) = [ucd_url, ucd_url]" by simp
  ultimately show ?thesis using example_not_fetched [of "Reply 200 ''PK-ucd''"] r1 r2 f1 f2
    by blast
qed

end
